theory Spec2Isabelle
  imports Main
begin

section \<open>JavaScript values as the demo reads them\<close>

text \<open>
  The React Native demo (\<^verbatim>\<open>examples/react-native/App.js\<close>) reads a handful of
  properties from the JSON bodies the consent service returns and only ever tests them
  for truthiness or pastes them into strings. A property is modelled as a
  \<open>string option\<close>: \<open>None\<close> is JavaScript's \<^verbatim>\<open>undefined\<close> (or \<^verbatim>\<open>null\<close>
  for a state variable), \<open>Some s\<close> a string. The empty string is falsy.
\<close>

definition truthy :: "string option \<Rightarrow> bool" where
  "truthy v = (case v of None \<Rightarrow> False | Some s \<Rightarrow> s \<noteq> [])"

definition orElse :: "string option \<Rightarrow> string option \<Rightarrow> string option" where
  \<comment> \<open>\<^verbatim>\<open>a || b\<close>\<close>
  "orElse a b = (if truthy a then a else b)"

definition orDefault :: "string option \<Rightarrow> string \<Rightarrow> string" where
  \<comment> \<open>\<^verbatim>\<open>a || 'literal'\<close>\<close>
  "orDefault a d = (case a of None \<Rightarrow> d | Some s \<Rightarrow> if s \<noteq> [] then s else d)"

definition template :: "string option \<Rightarrow> string" where
  \<comment> \<open>What a template literal prints for \<^verbatim>\<open>${v}\<close>.\<close>
  "template v = (case v of None \<Rightarrow> ''undefined'' | Some s \<Rightarrow> s)"

text \<open>
  A plain JavaScript object used as a dictionary keeps its string keys in insertion order;
  assigning to an existing key keeps the key's position.
\<close>

fun objSet :: "string \<Rightarrow> 'v \<Rightarrow> (string \<times> 'v) list \<Rightarrow> (string \<times> 'v) list" where
  "objSet k v [] = [(k, v)]"
| "objSet k v ((k', v') # kvs) = (if k = k' then (k, v) # kvs else (k', v') # objSet k v kvs)"

definition objKeys :: "(string \<times> 'v) list \<Rightarrow> string list" where
  "objKeys obj = map fst obj"

definition objGet :: "(string \<times> 'v) list \<Rightarrow> string \<Rightarrow> 'v option" where
  "objGet obj k = map_of obj k"

section \<open>HTTP exchanges\<close>

datatype 'a parsed = Malformed | JsonNull | Json 'a

record 'a response =
  status :: nat
  bodyText :: string
  bodyJson :: "'a parsed"

text \<open>
  \<open>bodyText\<close> is what \<^verbatim>\<open>response.text()\<close> resolves to and \<open>bodyJson\<close> what parsing
  that text gives: \<open>Malformed\<close> when the text is not JSON, \<open>JsonNull\<close> for the literal
  \<^verbatim>\<open>null\<close>, and otherwise the properties the caller goes on to read (all absent
  when the value is a number, a string, a boolean or an array).
  A call to \<^verbatim>\<open>fetch\<close> either rejects (no connectivity, timeout, aborted) or
  resolves with a response of any status.
\<close>

datatype 'a outcome = Rejected string | Resolved "'a response"

definition ok :: "'a response \<Rightarrow> bool" where
  \<comment> \<open>\<^verbatim>\<open>response.ok\<close>\<close>
  "ok r = (200 \<le> status r \<and> status r \<le> 299)"

record config_data =
  defaultConfigId :: "string option"

record vendor_data =
  vendor_id :: "string option"
  vendor_title :: "string option"
  vendor_name :: "string option"
  vendor_description :: "string option"
  vendor_image :: "string option"

record vendors_data =
  vendors_array :: "vendor_data list option"
  \<comment> \<open>\<open>None\<close>: the \<^verbatim>\<open>vendors\<close> property is missing or is not an array\<close>

record token_data =
  token :: "string option"

record consent_reply =
  reply_id :: "string option"
  reply__id :: "string option"
  reply_consentId :: "string option"
  reply_uuid :: "string option"
  reply_insertedId :: "string option"
  reply_message :: "string option"

datatype error =
    NetworkError string
  | SyntaxError
  | TypeError
  | TokenNotFound
  | ApiError nat string

section \<open>What goes over the wire\<close>

record consent_config =
  config_id :: string
  config_language :: string
  config_identifier :: string

record googleConsentMode =
  gcm_version :: nat
  ad_storage :: string
  ad_user_data :: string
  analytics_storage :: string
  ad_personalization :: string

record consent =
  accept :: bool
  preferences_config :: consent_config
  preferences_vendors :: "(string \<times> bool) list"
  consent_googleConsentMode :: googleConsentMode
  consent_token :: string

datatype http_method = GET | POST

record request =
  req_method :: http_method
  req_url :: string
  req_authorization :: string
  req_body :: "consent option"

section \<open>Client state\<close>

record vendor_info =
  info_id :: "string option"
  info_name :: "string option"
  info_description :: string
  info_image :: "string option"

datatype consent_status = NotSet | AllAccepted | CustomPreferences

datatype alert =
    ConfigurationAlert
  | TokenAlert error
  | SuccessAlert nat "string option" string
  | ApiResponseAlert nat "consent_reply parsed"
  | SaveFailedAlert error

text \<open>
  The component's \<^verbatim>\<open>useState\<close> cells, the injected key-value store
  (\<^verbatim>\<open>AsyncStorage\<close>), and the two things the outside can observe: the dialogs
  shown with \<^verbatim>\<open>Alert.alert\<close> and the requests handed to \<^verbatim>\<open>fetch\<close>, oldest
  first.
\<close>

record world =
  modalVisible :: bool
  settingsModalVisible :: bool
  loading :: bool
  vendorsLoading :: bool
  vendors :: "(string \<times> bool) list"
  apiVendors :: "(string \<times> vendor_info) list"
  consentStatus :: consent_status
  lastConsentId :: "string option"
  lastConsentToken :: "string option"
  currentUserToken :: "string option"
  configId :: "string option"
  projectId :: string
  environment :: string
  tempProjectId :: string
  tempEnvironment :: string
  storage :: "(string \<times> string) list"
  alerts :: "alert list"
  requests :: "request list"

definition ENVIRONMENTS :: "(string \<times> string \<times> string) list" where
  "ENVIRONMENTS =
    [(''local-dev'', ''Local Dev'', ''http://localhost:3000/mobile''),
     (''staging'', ''Staging'', ''https://staging-api.axeptio.tech/mobile''),
     (''production'', ''Production'', ''https://headless-api.axeptio.tech/mobile'')]"

definition DEFAULT_PROJECT_ID :: string where
  "DEFAULT_PROJECT_ID = ''67fcdb2b52ab9a99a5865f4d''"

definition DEFAULT_ENVIRONMENT :: string where
  "DEFAULT_ENVIRONMENT = ''staging''"

definition STORAGE_PROJECT_ID :: string where
  "STORAGE_PROJECT_ID = ''@axeptio_project_id''"

definition STORAGE_ENVIRONMENT :: string where
  "STORAGE_ENVIRONMENT = ''@axeptio_environment''"

definition VENDORS :: "(string \<times> vendor_info) list" where
  "VENDORS =
    [(''google_analytics'',
        \<lparr>info_id = None, info_name = Some ''Google Analytics'',
         info_description = ''Usage statistics and analytics'', info_image = None\<rparr>),
     (''facebook_pixel'',
        \<lparr>info_id = None, info_name = Some ''Facebook Pixel'',
         info_description = ''Ad targeting and conversion tracking'', info_image = None\<rparr>),
     (''mixpanel'',
        \<lparr>info_id = None, info_name = Some ''Mixpanel'',
         info_description = ''Product analytics and user behavior'', info_image = None\<rparr>)]"

definition environmentUrl :: "string \<Rightarrow> string option" where
  "environmentUrl e = map_option snd (map_of ENVIRONMENTS e)"

text \<open>
  A function defined inside the component closes over the state of the render that
  created it: what it reads (\<^verbatim>\<open>configId\<close>, \<^verbatim>\<open>apiBase\<close>, ...) is that render's
  value, also after an \<^verbatim>\<open>await\<close>, while what it writes with a setter goes to the
  live state. Below, such a function takes the render \<open>c\<close> it belongs to as its first
  argument and acts on the live world.
\<close>

definition apiBase :: "world \<Rightarrow> string" where
  \<comment> \<open>\<^verbatim>\<open>ENVIRONMENTS[environment]?.url || ENVIRONMENTS[DEFAULT_ENVIRONMENT].url\<close>\<close>
  "apiBase w = orDefault (environmentUrl (environment w)) ''https://staging-api.axeptio.tech/mobile''"

definition apiToken :: "world \<Rightarrow> string" where
  "apiToken w = ''project_'' @ projectId w @ ''_test_token''"

definition initialWorld :: "(string \<times> string) list \<Rightarrow> world" where
  \<comment> \<open>The first render, over whatever the key-value store holds.\<close>
  "initialWorld kv =
    \<lparr>modalVisible = False, settingsModalVisible = False, loading = False,
     vendorsLoading = True, vendors = [], apiVendors = VENDORS,
     consentStatus = NotSet, lastConsentId = None, lastConsentToken = None,
     currentUserToken = None, configId = None,
     projectId = DEFAULT_PROJECT_ID, environment = DEFAULT_ENVIRONMENT,
     tempProjectId = DEFAULT_PROJECT_ID, tempEnvironment = DEFAULT_ENVIRONMENT,
     storage = kv, alerts = [], requests = []\<rparr>"

section \<open>Handlers as state transformers that may throw\<close>

text \<open>
  A piece of handler code maps the live world to a new one together with either the value
  it produced or the exception that left it. State written before a throw stays written.
\<close>

type_synonym 'a action = "world \<Rightarrow> (error + 'a) \<times> world"

definition ret :: "'a \<Rightarrow> 'a action" where
  "ret x w = (Inr x, w)"

definition throw :: "error \<Rightarrow> 'a action" where
  "throw e w = (Inl e, w)"

definition andThen :: "'a action \<Rightarrow> ('a \<Rightarrow> 'b action) \<Rightarrow> 'b action" where
  "andThen m f w = (case m w of (Inl e, w') \<Rightarrow> (Inl e, w') | (Inr x, w') \<Rightarrow> f x w')"

definition tryCatch :: "'a action \<Rightarrow> (error \<Rightarrow> 'a action) \<Rightarrow> 'a action" where
  "tryCatch m h w = (case m w of (Inl e, w') \<Rightarrow> h e w' | (Inr x, w') \<Rightarrow> (Inr x, w'))"

definition tryFinally :: "'a action \<Rightarrow> unit action \<Rightarrow> 'a action" where
  "tryFinally m fin w =
    (case m w of (r, w') \<Rightarrow>
      (case fin w' of (Inl e, w'') \<Rightarrow> (Inl e, w'') | (Inr u, w'') \<Rightarrow> (r, w'')))"

definition modify :: "(world \<Rightarrow> world) \<Rightarrow> unit action" where
  \<comment> \<open>a state setter\<close>
  "modify f w = (Inr (), f w)"

definition showAlert :: "alert \<Rightarrow> unit action" where
  \<comment> \<open>\<^verbatim>\<open>Alert.alert(...)\<close>\<close>
  "showAlert a = modify (\<lambda>w. w\<lparr>alerts := alerts w @ [a]\<rparr>)"

definition issue :: "request \<Rightarrow> unit action" where
  \<comment> \<open>the call \<^verbatim>\<open>fetch(url, options)\<close>: the request leaves\<close>
  "issue rq = modify (\<lambda>w. w\<lparr>requests := requests w @ [rq]\<rparr>)"

definition settle :: "'a outcome \<Rightarrow> 'a response action" where
  \<comment> \<open>the \<^verbatim>\<open>await\<close> on it: the promise resolves or rejects\<close>
  "settle oc = (case oc of Rejected msg \<Rightarrow> throw (NetworkError msg) | Resolved r \<Rightarrow> ret r)"

definition fetch :: "request \<Rightarrow> 'a outcome \<Rightarrow> 'a response action" where
  "fetch rq oc = andThen (issue rq) (\<lambda>_. settle oc)"

definition responseJson :: "'a response \<Rightarrow> 'a parsed action" where
  \<comment> \<open>\<^verbatim>\<open>await response.json()\<close>\<close>
  "responseJson r = (case bodyJson r of Malformed \<Rightarrow> throw SyntaxError | v \<Rightarrow> ret v)"

definition getProp :: "('a \<Rightarrow> 'b option) \<Rightarrow> 'a parsed \<Rightarrow> 'b option action" where
  \<comment> \<open>\<^verbatim>\<open>data.p\<close>: reading a property of \<^verbatim>\<open>null\<close> throws.\<close>
  "getProp p v =
    (case v of Json d \<Rightarrow> ret (p d) | JsonNull \<Rightarrow> throw TypeError | Malformed \<Rightarrow> throw SyntaxError)"

section \<open>Configuration\<close>

definition configurationRequest :: "world \<Rightarrow> request" where
  "configurationRequest c =
    \<lparr>req_method = GET, req_url = apiBase c @ ''/configurations/'' @ projectId c,
     req_authorization = ''Bearer '' @ apiToken c, req_body = None\<rparr>"

definition configurationArrived :: "config_data outcome \<Rightarrow> string option action" where
  \<comment> \<open>\<^verbatim>\<open>fetchConfiguration\<close> from its \<^verbatim>\<open>await fetch\<close> on\<close>
  "configurationArrived oc =
    tryCatch
      (andThen (settle oc) (\<lambda>response.
        if ok response then
          andThen (responseJson response) (\<lambda>data.
          andThen (getProp defaultConfigId data) (\<lambda>cid.
            if truthy cid then
              andThen (modify (\<lambda>w. w\<lparr>configId := cid\<rparr>)) (\<lambda>_. ret cid)
            else ret None))
        else ret None))
      (\<lambda>error. ret None)"

definition fetchConfiguration :: "world \<Rightarrow> config_data outcome \<Rightarrow> string option action" where
  "fetchConfiguration c oc =
    andThen (issue (configurationRequest c)) (\<lambda>_. configurationArrived oc)"

section \<open>Vendors\<close>

definition vendorKeyOf :: "vendor_data \<Rightarrow> string" where
  "vendorKeyOf vendor =
    template (vendor_id vendor) @ '' ('' @
    template (orElse (vendor_title vendor) (vendor_name vendor)) @ '')''"

definition vendorInfoOf :: "vendor_data \<Rightarrow> vendor_info" where
  "vendorInfoOf vendor =
    \<lparr>info_id = vendor_id vendor,
     info_name = orElse (vendor_title vendor) (vendor_name vendor),
     info_description = orDefault (vendor_description vendor) ''No description available'',
     info_image = vendor_image vendor\<rparr>"

definition addVendor ::
  "(string \<times> vendor_info) list \<times> (string \<times> bool) list \<Rightarrow> vendor_data \<Rightarrow>
   (string \<times> vendor_info) list \<times> (string \<times> bool) list" where
  \<comment> \<open>one turn of the \<^verbatim>\<open>forEach\<close> over the vendors of the response\<close>
  "addVendor acc vendor =
    (case acc of (vendorMap, vendorPreferences) \<Rightarrow>
      (objSet (vendorKeyOf vendor) (vendorInfoOf vendor) vendorMap,
       objSet (vendorKeyOf vendor) False vendorPreferences))"

definition hardcodedPreferences :: "(string \<times> bool) list" where
  "hardcodedPreferences = foldl (\<lambda>acc key. objSet key False acc) [] (objKeys VENDORS)"

definition vendorsRequest :: "world \<Rightarrow> request" where
  "vendorsRequest c =
    \<lparr>req_method = GET, req_url = apiBase c @ ''/vendors/'' @ projectId c,
     req_authorization = ''Bearer '' @ apiToken c, req_body = None\<rparr>"

definition fetchVendors ::
  "world \<Rightarrow> vendors_data outcome \<Rightarrow> (string \<times> vendor_info) list option action" where
  "fetchVendors c oc =
    andThen (modify (\<lambda>w. w\<lparr>vendorsLoading := True\<rparr>)) (\<lambda>_.
    tryFinally
      (tryCatch
        (andThen (fetch (vendorsRequest c) oc) (\<lambda>response.
          if ok response then
            andThen (responseJson response) (\<lambda>vendorData.
              case vendorData of
                Json d \<Rightarrow>
                  (case vendors_array d of
                    Some vs \<Rightarrow>
                      (case foldl addVendor ([], []) vs of (vendorMap, vendorPreferences) \<Rightarrow>
                        andThen (modify (\<lambda>w. w\<lparr>apiVendors := vendorMap\<rparr>)) (\<lambda>_.
                        andThen (modify (\<lambda>w. w\<lparr>vendors := vendorPreferences\<rparr>)) (\<lambda>_.
                        andThen (modify (\<lambda>w. w\<lparr>vendorsLoading := False\<rparr>)) (\<lambda>_.
                        ret (Some vendorMap)))))
                  | None \<Rightarrow> ret None)
              | _ \<Rightarrow> ret None)
          else
            andThen (modify (\<lambda>w. w\<lparr>vendors := hardcodedPreferences\<rparr>)) (\<lambda>_. ret None)))
        (\<lambda>error.
          andThen (modify (\<lambda>w. w\<lparr>vendors := hardcodedPreferences\<rparr>)) (\<lambda>_. ret None)))
      (modify (\<lambda>w. w\<lparr>vendorsLoading := False\<rparr>)))"

section \<open>Identity token\<close>

definition tokenRequest :: "world \<Rightarrow> request" where
  "tokenRequest c =
    \<lparr>req_method = GET, req_url = apiBase c @ ''/token'',
     req_authorization = ''Bearer '' @ apiToken c, req_body = None\<rparr>"

definition tokenArrived :: "token_data outcome \<Rightarrow> string action" where
  \<comment> \<open>\<^verbatim>\<open>fetchToken\<close> from its \<^verbatim>\<open>await fetch\<close> on\<close>
  "tokenArrived oc =
    tryCatch
      (andThen (settle oc) (\<lambda>response.
        if ok response then
          andThen (responseJson response) (\<lambda>data.
          andThen (getProp token data) (\<lambda>t.
            case t of
              Some s \<Rightarrow> if s \<noteq> [] then ret s else throw TokenNotFound
            | None \<Rightarrow> throw TokenNotFound))
        else throw (ApiError (status response) (bodyText response))))
      (\<lambda>error. throw error)"

definition fetchToken :: "world \<Rightarrow> token_data outcome \<Rightarrow> string action" where
  "fetchToken c oc = andThen (issue (tokenRequest c)) (\<lambda>_. tokenArrived oc)"

section \<open>Settings in the key-value store\<close>

definition objectPrototypeKeys :: "string list" where
  \<comment> \<open>names every object literal inherits, so that \<^verbatim>\<open>ENVIRONMENTS[k]\<close> is truthy for them\<close>
  "objectPrototypeKeys =
    [''constructor'', ''hasOwnProperty'', ''isPrototypeOf'', ''propertyIsEnumerable'',
     ''toLocaleString'', ''toString'', ''valueOf'', ''__proto__'',
     ''__defineGetter__'', ''__defineSetter__'', ''__lookupGetter__'', ''__lookupSetter__'']"

definition loadSettings :: "unit action" where
  \<comment> \<open>Reads of the store are taken to succeed; the handler only logs when they do not.\<close>
  "loadSettings =
    tryCatch
      (andThen (\<lambda>w. ret (objGet (storage w) STORAGE_PROJECT_ID) w) (\<lambda>savedProjectId.
       andThen (\<lambda>w. ret (objGet (storage w) STORAGE_ENVIRONMENT) w) (\<lambda>savedEnvironment.
       andThen
         (case savedProjectId of
            Some p \<Rightarrow> if p \<noteq> [] then modify (\<lambda>w. w\<lparr>projectId := p, tempProjectId := p\<rparr>) else ret ()
          | None \<Rightarrow> ret ())
         (\<lambda>_.
           case savedEnvironment of
             Some e \<Rightarrow>
               if e \<noteq> [] \<and> (e \<in> set (map fst ENVIRONMENTS) \<or> e \<in> set objectPrototypeKeys)
               then modify (\<lambda>w. w\<lparr>environment := e, tempEnvironment := e\<rparr>) else ret ()
           | None \<Rightarrow> ret ()))))
      (\<lambda>error. ret ())"

definition saveSettings :: "string \<Rightarrow> string \<Rightarrow> unit action" where
  "saveSettings newProjectId newEnvironment =
    tryCatch
      (andThen (modify (\<lambda>w. w\<lparr>storage := objSet STORAGE_PROJECT_ID newProjectId (storage w)\<rparr>)) (\<lambda>_.
       modify (\<lambda>w. w\<lparr>storage := objSet STORAGE_ENVIRONMENT newEnvironment (storage w)\<rparr>)))
      (\<lambda>error. throw error)"

section \<open>Submitting a consent\<close>

definition formattedKey :: "vendor_info \<Rightarrow> string" where
  "formattedKey vendor = template (info_id vendor) @ '' ('' @ template (info_name vendor) @ '')''"

definition buildVendorPreferences :: "world \<Rightarrow> bool \<Rightarrow> (string \<times> bool) list" where
  \<comment> \<open>\<^verbatim>\<open>isAcceptAll || vendors[vendorKey] || false\<close> for every key of \<^verbatim>\<open>apiVendors\<close>\<close>
  "buildVendorPreferences c isAcceptAll =
    foldl
      (\<lambda>vendorPreferences vendorKey.
        case objGet (apiVendors c) vendorKey of
          Some vendor \<Rightarrow>
            objSet (formattedKey vendor)
              (isAcceptAll \<or> objGet (vendors c) vendorKey = Some True) vendorPreferences
        | None \<Rightarrow> vendorPreferences)
      [] (objKeys (apiVendors c))"

definition buildConsent :: "world \<Rightarrow> bool \<Rightarrow> string \<Rightarrow> string \<Rightarrow> consent" where
  "buildConsent c isAcceptAll currentConfigId tokenToUse =
    \<lparr>accept = True,
     preferences_config =
       \<lparr>config_id = currentConfigId, config_language = ''en'',
        config_identifier = currentConfigId\<rparr>,
     preferences_vendors = buildVendorPreferences c isAcceptAll,
     consent_googleConsentMode =
       \<lparr>gcm_version = 2, ad_storage = ''denied'', ad_user_data = ''denied'',
        analytics_storage = ''denied'', ad_personalization = ''denied''\<rparr>,
     consent_token = tokenToUse\<rparr>"

definition consentRequest :: "world \<Rightarrow> string \<Rightarrow> consent \<Rightarrow> request" where
  "consentRequest c currentConfigId body =
    \<lparr>req_method = POST,
     req_url = apiBase c @ ''/consents/'' @ projectId c @ ''/cookies/'' @ currentConfigId,
     req_authorization = ''Bearer '' @ apiToken c, req_body = Some body\<rparr>"

definition parseReply :: "consent_reply response \<Rightarrow> consent_reply parsed" where
  \<comment> \<open>\<^verbatim>\<open>JSON.parse(responseData)\<close>, or \<^verbatim>\<open>{ message: responseData }\<close> when that throws\<close>
  "parseReply r =
    (case bodyJson r of
      Malformed \<Rightarrow>
        Json \<lparr>reply_id = None, reply__id = None, reply_consentId = None, reply_uuid = None,
              reply_insertedId = None, reply_message = Some (bodyText r)\<rparr>
    | v \<Rightarrow> v)"

definition consentIdOf :: "consent_reply parsed \<Rightarrow> string action" where
  \<comment> \<open>\<^verbatim>\<open>parsedData.id || parsedData._id || ... || 'saved'\<close>\<close>
  "consentIdOf parsedData =
    andThen (getProp reply_id parsedData) (\<lambda>a.
    andThen (getProp reply__id parsedData) (\<lambda>b.
    andThen (getProp reply_consentId parsedData) (\<lambda>c.
    andThen (getProp reply_uuid parsedData) (\<lambda>d.
    andThen (getProp reply_insertedId parsedData) (\<lambda>e.
      ret (orDefault (orElse a (orElse b (orElse c (orElse d e)))) ''saved''))))))"

definition consentArrived :: "bool \<Rightarrow> string \<Rightarrow> consent_reply outcome \<Rightarrow> unit action" where
  \<comment> \<open>\<^verbatim>\<open>submitConsent\<close> from its \<^verbatim>\<open>await fetch\<close> on\<close>
  "consentArrived isAcceptAll tokenToUse oc =
    tryFinally
      (tryCatch
        (andThen (settle oc) (\<lambda>response.
          case parseReply response of parsedData \<Rightarrow>
            if ok response \<or> status response = 201 then
              andThen (consentIdOf parsedData) (\<lambda>consentId.
              andThen (modify (\<lambda>w. w\<lparr>consentStatus :=
                          (if isAcceptAll then AllAccepted else CustomPreferences)\<rparr>)) (\<lambda>_.
              andThen (modify (\<lambda>w. w\<lparr>lastConsentId := Some consentId\<rparr>)) (\<lambda>_.
              showAlert (SuccessAlert (status response)
                (if consentId = ''saved'' then None else Some consentId) tokenToUse))))
            else showAlert (ApiResponseAlert (status response) parsedData)))
        (\<lambda>error. showAlert (SaveFailedAlert error)))
      (andThen (modify (\<lambda>w. w\<lparr>loading := False\<rparr>)) (\<lambda>_.
       modify (\<lambda>w. w\<lparr>modalVisible := False\<rparr>)))"

definition transmitConsent :: "world \<Rightarrow> bool \<Rightarrow> string \<Rightarrow> string \<Rightarrow> unit action" where
  \<comment> \<open>from building the payload up to the call of \<^verbatim>\<open>fetch\<close>\<close>
  "transmitConsent c isAcceptAll currentConfigId tokenToUse =
    andThen (modify (\<lambda>w. w\<lparr>lastConsentToken := Some tokenToUse\<rparr>)) (\<lambda>_.
    issue (consentRequest c currentConfigId
             (buildConsent c isAcceptAll currentConfigId tokenToUse)))"

definition submitConsent ::
  "world \<Rightarrow> bool \<Rightarrow> config_data outcome \<Rightarrow> token_data outcome \<Rightarrow> consent_reply outcome \<Rightarrow>
   unit action" where
  "submitConsent c isAcceptAll ocConfiguration ocToken ocConsent =
    andThen (modify (\<lambda>w. w\<lparr>loading := True\<rparr>)) (\<lambda>_.
    andThen
      (if \<not> truthy (configId c) then fetchConfiguration c ocConfiguration
       else ret (configId c)) (\<lambda>currentConfigId.
    case currentConfigId of
      None \<Rightarrow>
        andThen (showAlert ConfigurationAlert) (\<lambda>_. modify (\<lambda>w. w\<lparr>loading := False\<rparr>))
    | Some cfg \<Rightarrow>
        if cfg = [] then
          andThen (showAlert ConfigurationAlert) (\<lambda>_. modify (\<lambda>w. w\<lparr>loading := False\<rparr>))
        else
          andThen
            (if \<not> truthy (currentUserToken c) then
               tryCatch
                 (andThen (fetchToken c ocToken) (\<lambda>t.
                  andThen (modify (\<lambda>w. w\<lparr>currentUserToken := Some t\<rparr>)) (\<lambda>_. ret (Some t))))
                 (\<lambda>error.
                  andThen (showAlert (TokenAlert error)) (\<lambda>_.
                  andThen (modify (\<lambda>w. w\<lparr>loading := False\<rparr>)) (\<lambda>_. ret None)))
             else ret (currentUserToken c)) (\<lambda>tokenToUse.
          case tokenToUse of
            None \<Rightarrow> ret ()
          | Some tok \<Rightarrow>
              andThen (transmitConsent c isAcceptAll cfg tok) (\<lambda>_.
              consentArrived isAcceptAll tok ocConsent))))"

text \<open>
  The three outcomes are those of the configuration, token and consent requests; one that
  belongs to a request the call does not make is not looked at. In the token step
  \<open>None\<close> stands for the \<^verbatim>\<open>return\<close> inside the \<^verbatim>\<open>catch\<close>.
\<close>

definition initializeApp ::
  "world \<Rightarrow> config_data outcome \<Rightarrow> vendors_data outcome \<Rightarrow> token_data outcome \<Rightarrow> unit action" where
  "initializeApp c ocConfiguration ocVendors ocToken =
    andThen (fetchConfiguration c ocConfiguration) (\<lambda>_.
    andThen (fetchVendors c ocVendors) (\<lambda>_.
    tryCatch
      (andThen (fetchToken c ocToken) (\<lambda>t.
       modify (\<lambda>w. w\<lparr>currentUserToken := Some t\<rparr>)))
      (\<lambda>error. ret ())))"

definition startupTokenArrived :: "token_data outcome \<Rightarrow> unit action" where
  \<comment> \<open>\<^verbatim>\<open>initializeApp\<close> from the \<^verbatim>\<open>await fetch\<close> of its \<^verbatim>\<open>fetchToken\<close> on\<close>
  "startupTokenArrived oc =
    tryCatch
      (andThen (tokenArrived oc) (\<lambda>t.
       modify (\<lambda>w. w\<lparr>currentUserToken := Some t\<rparr>)))
      (\<lambda>error. ret ())"

section \<open>Switches of the consent dialog\<close>

definition toggleVendor :: "string \<Rightarrow> unit action" where
  \<comment> \<open>\<^verbatim>\<open>[vendorKey]: !prev[vendorKey]\<close>\<close>
  "toggleVendor vendorKey =
    modify (\<lambda>w. w\<lparr>vendors := objSet vendorKey (objGet (vendors w) vendorKey \<noteq> Some True) (vendors w)\<rparr>)"

definition acceptAll :: "world \<Rightarrow> unit action" where
  "acceptAll c =
    modify (\<lambda>w. w\<lparr>vendors := foldl (\<lambda>acc key. objSet key True acc) [] (objKeys (apiVendors c))\<rparr>)"

definition rejectAll :: "world \<Rightarrow> unit action" where
  "rejectAll c =
    modify (\<lambda>w. w\<lparr>vendors := foldl (\<lambda>acc key. objSet key False acc) [] (objKeys (apiVendors c))\<rparr>)"

section \<open>The submission, await by await\<close>

text \<open>
  \<^verbatim>\<open>submitConsent\<close> gives control back at each \<^verbatim>\<open>await\<close>: after asking for the
  configuration, after asking for a token, and after posting the consent. A \<open>stage\<close>
  names the request a call is waiting for together with the local variables it keeps
  (\<^verbatim>\<open>currentConfigId\<close>, \<^verbatim>\<open>tokenToUse\<close>); \<open>startSubmit\<close> runs the call up to its
  first \<^verbatim>\<open>await\<close> and \<open>resumeSubmit\<close> from one \<^verbatim>\<open>await\<close> to the next, \<open>None\<close>
  meaning the call has returned. Other code may run between two such steps.
\<close>

datatype stage = AwaitingConfiguration | AwaitingToken string | AwaitingConsent string

datatype reply =
    ConfigurationReply "config_data outcome"
  | TokenReply "token_data outcome"
  | ConsentReply "consent_reply outcome"

definition sendStage :: "world \<Rightarrow> bool \<Rightarrow> string \<Rightarrow> string \<Rightarrow> stage option action" where
  "sendStage c isAcceptAll cfg tok =
    andThen (transmitConsent c isAcceptAll cfg tok) (\<lambda>_. ret (Some (AwaitingConsent tok)))"

definition tokenStage :: "world \<Rightarrow> bool \<Rightarrow> string \<Rightarrow> stage option action" where
  "tokenStage c isAcceptAll cfg =
    (if \<not> truthy (currentUserToken c) then
       andThen (issue (tokenRequest c)) (\<lambda>_. ret (Some (AwaitingToken cfg)))
     else
       case currentUserToken c of
         None \<Rightarrow> ret None
       | Some tok \<Rightarrow> sendStage c isAcceptAll cfg tok)"

definition configuredStage :: "world \<Rightarrow> bool \<Rightarrow> string option \<Rightarrow> stage option action" where
  "configuredStage c isAcceptAll currentConfigId =
    (case currentConfigId of
      None \<Rightarrow>
        andThen (showAlert ConfigurationAlert) (\<lambda>_.
        andThen (modify (\<lambda>w. w\<lparr>loading := False\<rparr>)) (\<lambda>_. ret None))
    | Some cfg \<Rightarrow>
        if cfg = [] then
          andThen (showAlert ConfigurationAlert) (\<lambda>_.
          andThen (modify (\<lambda>w. w\<lparr>loading := False\<rparr>)) (\<lambda>_. ret None))
        else tokenStage c isAcceptAll cfg)"

definition startSubmit :: "world \<Rightarrow> bool \<Rightarrow> stage option action" where
  "startSubmit c isAcceptAll =
    andThen (modify (\<lambda>w. w\<lparr>loading := True\<rparr>)) (\<lambda>_.
      if \<not> truthy (configId c) then
        andThen (issue (configurationRequest c)) (\<lambda>_. ret (Some AwaitingConfiguration))
      else configuredStage c isAcceptAll (configId c))"

definition resumeSubmit :: "world \<Rightarrow> bool \<Rightarrow> stage \<Rightarrow> reply \<Rightarrow> stage option action" where
  "resumeSubmit c isAcceptAll st rp =
    (case (st, rp) of
      (AwaitingConfiguration, ConfigurationReply oc) \<Rightarrow>
        andThen (configurationArrived oc) (configuredStage c isAcceptAll)
    | (AwaitingToken cfg, TokenReply oc) \<Rightarrow>
        andThen
          (tryCatch
            (andThen (tokenArrived oc) (\<lambda>t.
             andThen (modify (\<lambda>w. w\<lparr>currentUserToken := Some t\<rparr>)) (\<lambda>_. ret (Some t))))
            (\<lambda>error.
             andThen (showAlert (TokenAlert error)) (\<lambda>_.
             andThen (modify (\<lambda>w. w\<lparr>loading := False\<rparr>)) (\<lambda>_. ret None))))
          (\<lambda>tokenToUse.
            case tokenToUse of
              None \<Rightarrow> ret None
            | Some tok \<Rightarrow> sendStage c isAcceptAll cfg tok)
    | (AwaitingConsent tok, ConsentReply oc) \<Rightarrow>
        andThen (consentArrived isAcceptAll tok oc) (\<lambda>_. ret None)
    | _ \<Rightarrow> ret (Some st))"

definition feed ::
  "world \<Rightarrow> bool \<Rightarrow> config_data outcome \<Rightarrow> token_data outcome \<Rightarrow> consent_reply outcome \<Rightarrow>
   stage option \<Rightarrow> stage option action" where
  \<comment> \<open>hands a waiting call the outcome of the request it waits for\<close>
  "feed c isAcceptAll oc1 oc2 oc3 st =
    (case st of
      None \<Rightarrow> ret None
    | Some AwaitingConfiguration \<Rightarrow>
        resumeSubmit c isAcceptAll AwaitingConfiguration (ConfigurationReply oc1)
    | Some (AwaitingToken cfg) \<Rightarrow> resumeSubmit c isAcceptAll (AwaitingToken cfg) (TokenReply oc2)
    | Some (AwaitingConsent tok) \<Rightarrow>
        resumeSubmit c isAcceptAll (AwaitingConsent tok) (ConsentReply oc3))"

definition submitInStages ::
  "world \<Rightarrow> bool \<Rightarrow> config_data outcome \<Rightarrow> token_data outcome \<Rightarrow> consent_reply outcome \<Rightarrow>
   unit action" where
  \<comment> \<open>the stages run back to back, nothing in between\<close>
  "submitInStages c isAcceptAll oc1 oc2 oc3 =
    andThen (startSubmit c isAcceptAll) (\<lambda>s1.
    andThen (feed c isAcceptAll oc1 oc2 oc3 s1) (\<lambda>s2.
    andThen (feed c isAcceptAll oc1 oc2 oc3 s2) (\<lambda>s3.
    andThen (feed c isAcceptAll oc1 oc2 oc3 s3) (\<lambda>_. ret ()))))"

text \<open>
  The only control that calls \<^verbatim>\<open>submitConsent\<close> is the dialog's
  \<^verbatim>\<open>Save My Choices\<close> button, \<^verbatim>\<open>onPress={() => submitConsent(false)}\<close> with
  \<^verbatim>\<open>disabled={loading || vendorsLoading}\<close>. A press on a disabled button does
  nothing (\<open>None\<close>).
\<close>

definition saveMyChoicesDisabled :: "world \<Rightarrow> bool" where
  "saveMyChoicesDisabled w = (loading w \<or> vendorsLoading w)"

definition pressSaveMyChoices :: "world \<Rightarrow> ((error + stage option) \<times> world) option" where
  "pressSaveMyChoices w =
    (if saveMyChoicesDisabled w then None else Some (startSubmit w False w))"

text \<open>
  \<open>inFlight c b st w\<close>: a call \<^verbatim>\<open>submitConsent(b)\<close> made from render \<open>c\<close> is waiting
  at stage \<open>st\<close> and the live state is \<open>w\<close>. Between its steps anything may happen to
  the state that leaves \<^verbatim>\<open>loading\<close> alone (the start-up fetches, the switches).
\<close>

inductive inFlight :: "world \<Rightarrow> bool \<Rightarrow> stage \<Rightarrow> world \<Rightarrow> bool" where
  started: "startSubmit c b w = (Inr (Some st), w') \<Longrightarrow> inFlight c b st w'"
| resumed: "inFlight c b st w \<Longrightarrow> resumeSubmit c b st rp w = (Inr (Some st'), w') \<Longrightarrow>
            inFlight c b st' w'"
| interleaved: "inFlight c b st w \<Longrightarrow> loading w' = loading w \<Longrightarrow> inFlight c b st w'"

section \<open>The earlier demo without a token endpoint\<close>

text \<open>
  An earlier revision of the demo has three fixed vendors and makes its token from the
  clock. Only the payload it posts is modelled.
\<close>

fun decimal :: "nat \<Rightarrow> string" where
  "decimal n =
    (if n < 10 then [char_of (48 + n)] else decimal (n div 10) @ [char_of (48 + n mod 10)])"

declare decimal.simps [simp del]

record basic_consent =
  basic_accept :: bool
  basic_vendors :: "(string \<times> bool option) list"
  basic_token :: string

definition basicConsent :: "(string \<times> bool) list \<Rightarrow> bool \<Rightarrow> nat \<Rightarrow> basic_consent" where
  \<comment> \<open>\<^verbatim>\<open>isAcceptAll || vendors.google_analytics\<close> is \<^verbatim>\<open>undefined\<close> for a missing key\<close>
  "basicConsent vs isAcceptAll now =
    \<lparr>basic_accept = True,
     basic_vendors =
       [(''google_analytics'', if isAcceptAll then Some True else objGet vs ''google_analytics''),
        (''facebook_pixel'', if isAcceptAll then Some True else objGet vs ''facebook_pixel''),
        (''mixpanel'', if isAcceptAll then Some True else objGet vs ''mixpanel'')],
     basic_token = ''mobile_user_'' @ decimal now\<rparr>"

section \<open>What a call does, read off its outcomes\<close>

text \<open>
  The functions of this section are not in the source. They name what the source computes,
  so that the theorems can say it; each is tied to the source's function by a lemma below.
\<close>

definition configurationOf :: "config_data outcome \<Rightarrow> string option" where
  \<comment> \<open>what \<^verbatim>\<open>fetchConfiguration\<close> returns (\<open>None\<close> for \<^verbatim>\<open>null\<close>)\<close>
  "configurationOf oc =
    (case oc of
      Rejected msg \<Rightarrow> None
    | Resolved r \<Rightarrow>
        if ok r then
          (case bodyJson r of
            Json d \<Rightarrow> if truthy (defaultConfigId d) then defaultConfigId d else None
          | _ \<Rightarrow> None)
        else None)"

definition tokenOf :: "token_data outcome \<Rightarrow> error + string" where
  \<comment> \<open>what \<^verbatim>\<open>fetchToken\<close> returns or throws\<close>
  "tokenOf oc =
    (case oc of
      Rejected msg \<Rightarrow> Inl (NetworkError msg)
    | Resolved r \<Rightarrow>
        if ok r then
          (case bodyJson r of
            Json d \<Rightarrow>
              (case token d of
                Some s \<Rightarrow> if s \<noteq> [] then Inr s else Inl TokenNotFound
              | None \<Rightarrow> Inl TokenNotFound)
          | JsonNull \<Rightarrow> Inl TypeError
          | Malformed \<Rightarrow> Inl SyntaxError)
        else Inl (ApiError (status r) (bodyText r)))"

definition resolvedConfigId :: "world \<Rightarrow> config_data outcome \<Rightarrow> string option" where
  \<comment> \<open>\<^verbatim>\<open>currentConfigId\<close> of \<^verbatim>\<open>submitConsent\<close>: the one held, else the one fetched\<close>
  "resolvedConfigId c oc = (if truthy (configId c) then configId c else configurationOf oc)"

definition resolvedToken :: "world \<Rightarrow> token_data outcome \<Rightarrow> error + string" where
  \<comment> \<open>\<^verbatim>\<open>tokenToUse\<close> of \<^verbatim>\<open>submitConsent\<close>: the one held, else the one fetched\<close>
  "resolvedToken c oc =
    (case currentUserToken c of
      Some t \<Rightarrow> if t \<noteq> [] then Inr t else tokenOf oc
    | None \<Rightarrow> tokenOf oc)"

definition serverAssignedId :: "consent_reply \<Rightarrow> string option" where
  "serverAssignedId d =
    orElse (reply_id d) (orElse (reply__id d) (orElse (reply_consentId d)
      (orElse (reply_uuid d) (reply_insertedId d))))"

definition afterResolution :: "world \<Rightarrow> config_data outcome \<Rightarrow> world \<Rightarrow> world" where
  \<comment> \<open>the live state once \<^verbatim>\<open>currentConfigId\<close> is known\<close>
  "afterResolution c oc w =
    (if truthy (configId c) then w\<lparr>loading := True\<rparr>
     else w\<lparr>loading := True, requests := requests w @ [configurationRequest c],
             configId := configurationOf oc\<rparr>)"

definition afterToken :: "world \<Rightarrow> string \<Rightarrow> world \<Rightarrow> world" where
  \<comment> \<open>the live state once \<^verbatim>\<open>tokenToUse\<close> is known\<close>
  "afterToken c tok w =
    (if truthy (currentUserToken c) then w
     else w\<lparr>requests := requests w @ [tokenRequest c], currentUserToken := Some tok\<rparr>)"

definition readyToSend ::
  "world \<Rightarrow> bool \<Rightarrow> config_data outcome \<Rightarrow> string \<Rightarrow> string \<Rightarrow> world \<Rightarrow> world" where
  \<comment> \<open>the live state when the consent has been posted\<close>
  "readyToSend c b oc cfg tok w =
    (afterToken c tok (afterResolution c oc w))\<lparr>
       lastConsentToken := Some tok,
       requests := requests (afterToken c tok (afterResolution c oc w)) @
                   [consentRequest c cfg (buildConsent c b cfg tok)]\<rparr>"

definition newRequests :: "world \<Rightarrow> world \<Rightarrow> request list" where
  \<comment> \<open>the requests made between an earlier and a later state\<close>
  "newRequests w w' = drop (length (requests w)) (requests w')"

definition transmitted :: "world \<Rightarrow> world \<Rightarrow> bool" where
  \<comment> \<open>a consent was posted between the two states\<close>
  "transmitted w w' = list_ex (\<lambda>rq. req_method rq = POST) (newRequests w w')"

definition sentConsents :: "world \<Rightarrow> world \<Rightarrow> consent list" where
  "sentConsents w w' = List.map_filter req_body (newRequests w w')"

section \<open>A session used in the examples\<close>

definition freshWorld :: world where
  "freshWorld = initialWorld []"

definition configurationCfg1 :: "config_data outcome" where
  "configurationCfg1 =
    Resolved \<lparr>status = 200, bodyText = ''(configuration cfg1)'',
              bodyJson = Json \<lparr>defaultConfigId = Some ''cfg1''\<rparr>\<rparr>"

definition vendorsV1V2 :: "vendors_data outcome" where
  "vendorsV1V2 =
    Resolved \<lparr>status = 200, bodyText = ''(vendors v1 and v2)'',
      bodyJson = Json \<lparr>vendors_array = Some
        [\<lparr>vendor_id = Some ''v1'', vendor_title = Some ''One'', vendor_name = None,
          vendor_description = None, vendor_image = None\<rparr>,
         \<lparr>vendor_id = Some ''v2'', vendor_title = None, vendor_name = Some ''Two'',
          vendor_description = Some ''Second vendor'', vendor_image = None\<rparr>]\<rparr>\<rparr>"

definition tokenReply :: "string \<Rightarrow> token_data outcome" where
  "tokenReply t =
    Resolved \<lparr>status = 200, bodyText = ''(token)'', bodyJson = Json \<lparr>token = Some t\<rparr>\<rparr>"

definition consentRecord :: "nat \<Rightarrow> string option \<Rightarrow> consent_reply response" where
  "consentRecord code i =
    \<lparr>status = code, bodyText = ''(consent record)'',
     bodyJson = Json \<lparr>reply_id = i, reply__id = None, reply_consentId = None,
                      reply_uuid = None, reply_insertedId = None, reply_message = None\<rparr>\<rparr>"

definition replyWithId :: "nat \<Rightarrow> string option \<Rightarrow> consent_reply outcome" where
  "replyWithId code i = Resolved (consentRecord code i)"

definition serverErrorResponse :: "consent_reply response" where
  "serverErrorResponse =
    \<lparr>status = 500, bodyText = ''Internal Server Error'', bodyJson = Malformed\<rparr>"

definition serverError :: "consent_reply outcome" where
  "serverError = Resolved serverErrorResponse"

definition offline :: "'a outcome" where
  "offline = Rejected ''Network request failed''"

definition readyWorld :: world where
  \<comment> \<open>after the start-up fetches have all succeeded\<close>
  "readyWorld =
    snd (initializeApp freshWorld configurationCfg1 vendorsV1V2 (tokenReply ''tok1'') freshWorld)"

definition choosingWorld :: world where
  \<comment> \<open>the user has switched vendor v1 on and left v2 off\<close>
  "choosingWorld = snd (toggleVendor ''v1 (One)'' readyWorld)"

definition restartedWorld :: world where
  \<comment> \<open>the first render of a new process over the store the session left behind\<close>
  "restartedWorld = initialWorld (storage readyWorld)"

definition configuredWorld :: world where
  \<comment> \<open>after one successful \<^verbatim>\<open>fetchConfiguration\<close>\<close>
  "configuredWorld = snd (fetchConfiguration freshWorld configurationCfg1 freshWorld)"

definition explicitReadyWorld :: world where
  \<comment> \<open>\<open>readyWorld\<close> written out\<close>
  "explicitReadyWorld =
    \<lparr>modalVisible = False, settingsModalVisible = False, loading = False,
     vendorsLoading = False,
     vendors = [(''v1 (One)'', False), (''v2 (Two)'', False)],
     apiVendors =
       [(''v1 (One)'',
         \<lparr>info_id = Some ''v1'', info_name = Some ''One'',
          info_description = ''No description available'', info_image = None\<rparr>),
        (''v2 (Two)'',
         \<lparr>info_id = Some ''v2'', info_name = Some ''Two'',
          info_description = ''Second vendor'', info_image = None\<rparr>)],
     consentStatus = NotSet, lastConsentId = None, lastConsentToken = None,
     currentUserToken = Some ''tok1'', configId = Some ''cfg1'',
     projectId = ''67fcdb2b52ab9a99a5865f4d'', environment = ''staging'',
     tempProjectId = ''67fcdb2b52ab9a99a5865f4d'', tempEnvironment = ''staging'',
     storage = [], alerts = [],
     requests =
       [configurationRequest freshWorld, vendorsRequest freshWorld, tokenRequest freshWorld]\<rparr>"

definition confirmedWorld :: world where
  \<comment> \<open>the choices v1 on, v2 off saved, the service answering 201 with id abc\<close>
  "confirmedWorld =
    snd (submitConsent choosingWorld False offline offline (replyWithId 201 (Some ''abc''))
           choosingWorld)"

definition refusedWorld :: world where
  \<comment> \<open>a submission the service answered with status 500\<close>
  "refusedWorld = snd (submitConsent readyWorld False offline offline serverError readyWorld)"

definition firstSubmission :: world where
  \<comment> \<open>a submission made before anything has been fetched\<close>
  "firstSubmission =
    snd (submitConsent freshWorld False configurationCfg1 (tokenReply ''tok1'')
           (replyWithId 201 (Some ''abc'')) freshWorld)"

definition secondSubmission :: world where
  \<comment> \<open>the next one; the service would hand out another token if asked\<close>
  "secondSubmission =
    snd (submitConsent firstSubmission True offline (tokenReply ''tok2'')
           (replyWithId 201 None) firstSubmission)"

definition firstInFlight :: world where
  \<comment> \<open>a submission has been posted and not answered yet\<close>
  "firstInFlight = snd (startSubmit readyWorld False readyWorld)"

definition bothInFlight :: world where
  \<comment> \<open>\<^verbatim>\<open>submitConsent\<close> is called once more from the same render\<close>
  "bothInFlight = snd (startSubmit readyWorld False firstInFlight)"

definition bothAnswered :: world where
  \<comment> \<open>the service answers the one, then the other\<close>
  "bothAnswered =
    snd (resumeSubmit readyWorld False (AwaitingConsent ''tok1'')
           (ConsentReply (replyWithId 201 (Some ''def'')))
           (snd (resumeSubmit readyWorld False (AwaitingConsent ''tok1'')
                   (ConsentReply (replyWithId 201 (Some ''abc''))) bothInFlight)))"

definition overtakenWorld :: world where
  \<comment> \<open>the start-up token request is answered only after the first submission\<close>
  "overtakenWorld = snd (startupTokenArrived (tokenReply ''tok2'') firstSubmission)"

definition thirdSubmission :: world where
  \<comment> \<open>the submission after that\<close>
  "thirdSubmission =
    snd (submitConsent overtakenWorld False offline offline (replyWithId 201 None)
           overtakenWorld)"

section \<open>The pieces, one by one\<close>

lemmas action_defs = ret_def throw_def andThen_def tryCatch_def tryFinally_def modify_def
  showAlert_def issue_def settle_def fetch_def responseJson_def getProp_def

lemma configurationArrived_eq:
  "configurationArrived oc w =
    (Inr (configurationOf oc),
     case configurationOf oc of None \<Rightarrow> w | Some s \<Rightarrow> w\<lparr>configId := Some s\<rparr>)"
  by (auto simp: configurationArrived_def configurationOf_def action_defs truthy_def
           split: outcome.splits parsed.splits option.splits)

lemma configurationOf_truthy: "configurationOf oc = Some s \<Longrightarrow> s \<noteq> []"
  by (auto simp: configurationOf_def truthy_def
           split: outcome.splits parsed.splits option.splits if_splits)

lemma tokenArrived_eq: "tokenArrived oc w = (tokenOf oc, w)"
  by (auto simp: tokenArrived_def tokenOf_def action_defs
           split: outcome.splits parsed.splits option.splits)

lemma tokenOf_truthy: "tokenOf oc = Inr t \<Longrightarrow> t \<noteq> []"
  by (auto simp: tokenOf_def split: outcome.splits parsed.splits option.splits if_splits)

lemma fetchConfiguration_eq:
  "fetchConfiguration c oc w =
    (Inr (configurationOf oc),
     case configurationOf oc of
       None \<Rightarrow> w\<lparr>requests := requests w @ [configurationRequest c]\<rparr>
     | Some s \<Rightarrow> w\<lparr>requests := requests w @ [configurationRequest c], configId := Some s\<rparr>)"
  by (simp add: fetchConfiguration_def andThen_def issue_def modify_def configurationArrived_eq
           split: option.splits)

lemma fetchToken_eq:
  "fetchToken c oc w = (tokenOf oc, w\<lparr>requests := requests w @ [tokenRequest c]\<rparr>)"
  by (simp add: fetchToken_def andThen_def issue_def modify_def tokenArrived_eq split: sum.splits)

lemma consentIdOf_Json:
  "consentIdOf (Json d) w = (Inr (orDefault (serverAssignedId d) ''saved''), w)"
  by (simp add: consentIdOf_def serverAssignedId_def getProp_def andThen_def ret_def)

lemma consentIdOf_JsonNull: "consentIdOf JsonNull w = (Inl TypeError, w)"
  by (simp add: consentIdOf_def getProp_def andThen_def throw_def)

lemma parseReply_not_Malformed: "parseReply r \<noteq> Malformed"
  by (simp add: parseReply_def split: parsed.splits)

lemma consentArrived_rejected:
  "consentArrived b tok (Rejected msg) w =
    (Inr (), w\<lparr>alerts := alerts w @ [SaveFailedAlert (NetworkError msg)],
               loading := False, modalVisible := False\<rparr>)"
  by (simp add: consentArrived_def action_defs)

lemma consentArrived_refused:
  assumes "\<not> ok r" and "status r \<noteq> 201"
  shows "consentArrived b tok (Resolved r) w =
    (Inr (), w\<lparr>alerts := alerts w @ [ApiResponseAlert (status r) (parseReply r)],
               loading := False, modalVisible := False\<rparr>)"
  using assms by (simp add: consentArrived_def action_defs)

lemma consentArrived_saved:
  assumes "ok r \<or> status r = 201" and "parseReply r = Json d"
  shows "consentArrived b tok (Resolved r) w =
    (Inr (), w\<lparr>consentStatus := (if b then AllAccepted else CustomPreferences),
               lastConsentId := Some (orDefault (serverAssignedId d) ''saved''),
               alerts := alerts w @
                 [SuccessAlert (status r)
                    (if orDefault (serverAssignedId d) ''saved'' = ''saved'' then None
                     else Some (orDefault (serverAssignedId d) ''saved'')) tok],
               loading := False, modalVisible := False\<rparr>)"
  using assms
  by (simp add: consentArrived_def tryFinally_def tryCatch_def andThen_def settle_def ret_def
        modify_def showAlert_def consentIdOf_Json)

lemma consentArrived_null:
  assumes "ok r \<or> status r = 201" and "parseReply r = JsonNull"
  shows "consentArrived b tok (Resolved r) w =
    (Inr (), w\<lparr>alerts := alerts w @ [SaveFailedAlert TypeError],
               loading := False, modalVisible := False\<rparr>)"
  using assms
  by (simp add: consentArrived_def tryFinally_def tryCatch_def andThen_def settle_def ret_def
        modify_def showAlert_def consentIdOf_JsonNull)

lemma consentArrived_total:
  "\<exists>a w'. consentArrived b tok oc w = (Inr (), w') \<and> alerts w' = alerts w @ [a] \<and>
      \<not> loading w' \<and> requests w' = requests w \<and> currentUserToken w' = currentUserToken w"
proof (cases oc)
  case (Rejected msg)
  then show ?thesis by (simp add: consentArrived_rejected)
next
  case (Resolved r)
  show ?thesis
  proof (cases "ok r \<or> status r = 201")
    case False
    with Resolved show ?thesis by (simp add: consentArrived_refused)
  next
    case True
    show ?thesis
    proof (cases "parseReply r")
      case Malformed
      then show ?thesis by (simp add: parseReply_not_Malformed)
    next
      case JsonNull
      with True Resolved show ?thesis by (simp add: consentArrived_null)
    next
      case (Json d)
      with True Resolved show ?thesis by (simp add: consentArrived_saved)
    qed
  qed
qed

section \<open>The three ways a submission can go\<close>

lemma resolvedConfigId_held:
  "truthy (configId c) \<Longrightarrow> resolvedConfigId c oc = Some cfg \<Longrightarrow>
     configId c = Some cfg \<and> cfg \<noteq> []"
  by (cases "configId c") (simp_all add: resolvedConfigId_def truthy_def)

lemma resolvedConfigId_fetched:
  "\<not> truthy (configId c) \<Longrightarrow> resolvedConfigId c oc = configurationOf oc"
  by (simp add: resolvedConfigId_def)

lemma resolvedConfigId_truthy: "resolvedConfigId c oc = Some cfg \<Longrightarrow> cfg \<noteq> []"
  by (cases "truthy (configId c)")
     (auto simp: resolvedConfigId_fetched dest: resolvedConfigId_held configurationOf_truthy)

lemma resolvedConfigId_None: "resolvedConfigId c oc = None \<Longrightarrow> \<not> truthy (configId c)"
  by (cases "configId c") (auto simp: resolvedConfigId_def truthy_def split: if_splits)

lemma resolvedToken_held:
  "truthy (currentUserToken c) \<Longrightarrow> resolvedToken c oc = r \<Longrightarrow>
     \<exists>tok. r = Inr tok \<and> currentUserToken c = Some tok \<and> tok \<noteq> []"
  by (cases "currentUserToken c") (auto simp: resolvedToken_def truthy_def)

lemma resolvedToken_fetched:
  "\<not> truthy (currentUserToken c) \<Longrightarrow> resolvedToken c oc = tokenOf oc"
  by (cases "currentUserToken c") (auto simp: resolvedToken_def truthy_def)

lemma resolvedToken_truthy: "resolvedToken c oc = Inr tok \<Longrightarrow> tok \<noteq> []"
  by (cases "truthy (currentUserToken c)")
     (auto simp: resolvedToken_fetched dest: resolvedToken_held tokenOf_truthy)

lemma resolvedToken_Inl: "resolvedToken c oc = Inl e \<Longrightarrow> \<not> truthy (currentUserToken c)"
  using resolvedToken_held by blast

lemma submit_no_configuration:
  assumes "resolvedConfigId c oc1 = None"
  shows "submitConsent c b oc1 oc2 oc3 w =
    (Inr (), w\<lparr>loading := False, requests := requests w @ [configurationRequest c],
               alerts := alerts w @ [ConfigurationAlert]\<rparr>)"
proof -
  have nt: "\<not> truthy (configId c)"
    using assms by (rule resolvedConfigId_None)
  then have "configurationOf oc1 = None"
    using assms by (simp add: resolvedConfigId_def)
  then show ?thesis
    using nt
    by (simp add: submitConsent_def andThen_def modify_def showAlert_def fetchConfiguration_eq)
qed

lemma submit_to_token_step:
  assumes "resolvedConfigId c oc1 = Some cfg"
  shows "submitConsent c b oc1 oc2 oc3 w =
    andThen
      (if \<not> truthy (currentUserToken c) then
         tryCatch
           (andThen (fetchToken c oc2) (\<lambda>t.
            andThen (modify (\<lambda>w. w\<lparr>currentUserToken := Some t\<rparr>)) (\<lambda>_. ret (Some t))))
           (\<lambda>error.
            andThen (showAlert (TokenAlert error)) (\<lambda>_.
            andThen (modify (\<lambda>w. w\<lparr>loading := False\<rparr>)) (\<lambda>_. ret None)))
       else ret (currentUserToken c))
      (\<lambda>tokenToUse.
        case tokenToUse of
          None \<Rightarrow> ret ()
        | Some tok \<Rightarrow>
            andThen (transmitConsent c b cfg tok) (\<lambda>_. consentArrived b tok oc3))
      (afterResolution c oc1 w)"
proof (cases "truthy (configId c)")
  case True
  with assms have "configId c = Some cfg" "cfg \<noteq> []"
    using resolvedConfigId_held by blast+
  with True show ?thesis
    by (simp add: submitConsent_def afterResolution_def andThen_def[of "modify _"]
          andThen_def[of "ret _"] modify_def ret_def)
next
  case False
  with assms have co: "configurationOf oc1 = Some cfg"
    by (simp add: resolvedConfigId_fetched)
  then have "cfg \<noteq> []" by (rule configurationOf_truthy)
  with False co show ?thesis
    by (simp add: submitConsent_def afterResolution_def andThen_def[of "modify _"]
          andThen_def[of "fetchConfiguration _ _"] modify_def fetchConfiguration_eq)
qed

lemma submit_no_token:
  assumes "resolvedConfigId c oc1 = Some cfg" and "resolvedToken c oc2 = Inl e"
  shows "submitConsent c b oc1 oc2 oc3 w =
    (Inr (), (afterResolution c oc1 w)\<lparr>
               requests := requests (afterResolution c oc1 w) @ [tokenRequest c],
               alerts := alerts (afterResolution c oc1 w) @ [TokenAlert e],
               loading := False\<rparr>)"
proof -
  have nt: "\<not> truthy (currentUserToken c)"
    using assms(2) by (rule resolvedToken_Inl)
  then have "tokenOf oc2 = Inl e"
    using assms(2) by (simp add: resolvedToken_fetched)
  with nt show ?thesis
    by (simp add: submit_to_token_step[OF assms(1)] andThen_def tryCatch_def fetchToken_eq
          showAlert_def modify_def ret_def)
qed

lemma submit_transmits:
  assumes "resolvedConfigId c oc1 = Some cfg" and "resolvedToken c oc2 = Inr tok"
  shows "submitConsent c b oc1 oc2 oc3 w =
    consentArrived b tok oc3 (readyToSend c b oc1 cfg tok w)"
proof (cases "truthy (currentUserToken c)")
  case True
  with assms(2) have "currentUserToken c = Some tok"
    using resolvedToken_held by blast
  with True show ?thesis
    by (simp add: submit_to_token_step[OF assms(1)] andThen_def ret_def transmitConsent_def
          issue_def modify_def readyToSend_def afterToken_def)
next
  case False
  with assms(2) have "tokenOf oc2 = Inr tok"
    by (simp add: resolvedToken_fetched)
  with False show ?thesis
    by (simp add: submit_to_token_step[OF assms(1)] andThen_def tryCatch_def fetchToken_eq
          ret_def transmitConsent_def issue_def modify_def readyToSend_def afterToken_def)
qed

lemma afterResolution_fields [simp]:
  "alerts (afterResolution c oc w) = alerts w"
  "consentStatus (afterResolution c oc w) = consentStatus w"
  "lastConsentId (afterResolution c oc w) = lastConsentId w"
  "currentUserToken (afterResolution c oc w) = currentUserToken w"
  "loading (afterResolution c oc w) = True"
  "requests (afterResolution c oc w) =
     requests w @ (if truthy (configId c) then [] else [configurationRequest c])"
  by (simp_all add: afterResolution_def)

lemma afterToken_fields [simp]:
  "alerts (afterToken c tok w) = alerts w"
  "consentStatus (afterToken c tok w) = consentStatus w"
  "lastConsentId (afterToken c tok w) = lastConsentId w"
  "loading (afterToken c tok w) = loading w"
  "currentUserToken (afterToken c tok w) =
     (if truthy (currentUserToken c) then currentUserToken w else Some tok)"
  "requests (afterToken c tok w) =
     requests w @ (if truthy (currentUserToken c) then [] else [tokenRequest c])"
  by (simp_all add: afterToken_def)

lemma readyToSend_fields [simp]:
  "alerts (readyToSend c b oc cfg tok w) = alerts w"
  "consentStatus (readyToSend c b oc cfg tok w) = consentStatus w"
  "lastConsentId (readyToSend c b oc cfg tok w) = lastConsentId w"
  "loading (readyToSend c b oc cfg tok w) = True"
  "currentUserToken (readyToSend c b oc cfg tok w) =
     (if truthy (currentUserToken c) then currentUserToken w else Some tok)"
  "requests (readyToSend c b oc cfg tok w) =
     requests w @ (if truthy (configId c) then [] else [configurationRequest c]) @
     (if truthy (currentUserToken c) then [] else [tokenRequest c]) @
     [consentRequest c cfg (buildConsent c b cfg tok)]"
  by (simp_all add: readyToSend_def)

lemma newRequests_append [simp]:
  "requests w' = requests w @ rs \<Longrightarrow> newRequests w w' = rs"
  by (simp add: newRequests_def)

text \<open>The requests a call makes, in order.\<close>

lemma submitConsent_requests:
  "requests (snd (submitConsent c b oc1 oc2 oc3 w)) = requests w @
     (if truthy (configId c) then [] else [configurationRequest c]) @
     (case resolvedConfigId c oc1 of
        None \<Rightarrow> []
      | Some cfg \<Rightarrow>
          (if truthy (currentUserToken c) then [] else [tokenRequest c]) @
          (case resolvedToken c oc2 of
             Inl e \<Rightarrow> []
           | Inr tok \<Rightarrow> [consentRequest c cfg (buildConsent c b cfg tok)]))"
proof (cases "resolvedConfigId c oc1")
  case None
  then show ?thesis
    by (simp add: submit_no_configuration resolvedConfigId_None)
next
  case (Some cfg)
  show ?thesis
  proof (cases "resolvedToken c oc2")
    case (Inl e)
    with Some show ?thesis
      by (simp add: submit_no_token resolvedToken_Inl)
  next
    case (Inr tok)
    obtain a :: alert and w' where "consentArrived b tok oc3 (readyToSend c b oc1 cfg tok w) = (Inr (), w')"
      and "requests w' = requests (readyToSend c b oc1 cfg tok w)"
      using consentArrived_total by blast
    with Some Inr show ?thesis
      by (simp add: submit_transmits)
  qed
qed

section \<open>The stages make up the call\<close>

lemma consentArrived_fst: "fst (consentArrived b tok oc w) = Inr ()"
  using consentArrived_total[of b tok oc w] by auto

lemma consentArrived_pair:
  "consentArrived b tok oc w = (Inr (), snd (consentArrived b tok oc w))"
  using consentArrived_fst[of b tok oc w]
  by (cases "consentArrived b tok oc w") simp

lemma consentArrived_case:
  "(case consentArrived b tok oc w of (Inl e, w') \<Rightarrow> f e w' | (Inr x, w') \<Rightarrow> g x w') =
    g () (snd (consentArrived b tok oc w))"
  using consentArrived_fst[of b tok oc w]
  by (cases "consentArrived b tok oc w") simp

lemmas stage_defs = submitInStages_def startSubmit_def feed_def resumeSubmit_def
  configuredStage_def tokenStage_def sendStage_def

lemma stages_no_configuration:
  assumes "resolvedConfigId c oc1 = None"
  shows "submitInStages c b oc1 oc2 oc3 w =
    (Inr (), w\<lparr>loading := False, requests := requests w @ [configurationRequest c],
               alerts := alerts w @ [ConfigurationAlert]\<rparr>)"
proof -
  have nt: "\<not> truthy (configId c)"
    using assms by (rule resolvedConfigId_None)
  then have "configurationOf oc1 = None"
    using assms by (simp add: resolvedConfigId_def)
  then show ?thesis
    using nt
    by (simp add: stage_defs andThen_def modify_def issue_def ret_def showAlert_def
          configurationArrived_eq)
qed

lemma stages_no_token:
  assumes "resolvedConfigId c oc1 = Some cfg" and "resolvedToken c oc2 = Inl e"
  shows "submitInStages c b oc1 oc2 oc3 w =
    (Inr (), (afterResolution c oc1 w)\<lparr>
               requests := requests (afterResolution c oc1 w) @ [tokenRequest c],
               alerts := alerts (afterResolution c oc1 w) @ [TokenAlert e],
               loading := False\<rparr>)"
proof -
  have nt: "\<not> truthy (currentUserToken c)"
    using assms(2) by (rule resolvedToken_Inl)
  then have tk: "tokenOf oc2 = Inl e"
    using assms(2) by (simp add: resolvedToken_fetched)
  have ne: "cfg \<noteq> []"
    using assms(1) by (rule resolvedConfigId_truthy)
  show ?thesis
  proof (cases "truthy (configId c)")
    case True
    with assms(1) have "configId c = Some cfg"
      using resolvedConfigId_held by blast
    with True nt tk ne show ?thesis
      by (simp add: stage_defs afterResolution_def andThen_def tryCatch_def modify_def issue_def
            ret_def showAlert_def tokenArrived_eq)
  next
    case False
    with assms(1) have "configurationOf oc1 = Some cfg"
      by (simp add: resolvedConfigId_fetched)
    with False nt tk ne show ?thesis
      by (simp add: stage_defs afterResolution_def andThen_def tryCatch_def modify_def issue_def
            ret_def showAlert_def tokenArrived_eq configurationArrived_eq)
  qed
qed

lemma stages_transmit:
  assumes "resolvedConfigId c oc1 = Some cfg" and "resolvedToken c oc2 = Inr tok"
  shows "submitInStages c b oc1 oc2 oc3 w =
    consentArrived b tok oc3 (readyToSend c b oc1 cfg tok w)"
proof -
  have ne: "cfg \<noteq> []"
    using assms(1) by (rule resolvedConfigId_truthy)
  have *: "submitInStages c b oc1 oc2 oc3 w =
      (Inr (), snd (consentArrived b tok oc3 (readyToSend c b oc1 cfg tok w)))"
  proof (cases "truthy (configId c)")
    case cfgHeld: True
    with assms(1) have c1: "configId c = Some cfg"
      using resolvedConfigId_held by blast
    show ?thesis
    proof (cases "truthy (currentUserToken c)")
      case True
      with assms(2) have "currentUserToken c = Some tok"
        using resolvedToken_held by blast
      with True cfgHeld c1 ne show ?thesis
        by (simp add: stage_defs readyToSend_def afterToken_def afterResolution_def
              andThen_def consentArrived_case tryCatch_def tokenArrived_eq
              configurationArrived_eq transmitConsent_def modify_def issue_def ret_def)
    next
      case False
      with assms(2) have "tokenOf oc2 = Inr tok"
        by (simp add: resolvedToken_fetched)
      with False cfgHeld c1 ne show ?thesis
        by (simp add: stage_defs readyToSend_def afterToken_def afterResolution_def
              andThen_def consentArrived_case tryCatch_def tokenArrived_eq
              configurationArrived_eq transmitConsent_def modify_def issue_def ret_def)
    qed
  next
    case cfgMissing: False
    with assms(1) have c1: "configurationOf oc1 = Some cfg"
      by (simp add: resolvedConfigId_fetched)
    show ?thesis
    proof (cases "truthy (currentUserToken c)")
      case True
      with assms(2) have "currentUserToken c = Some tok"
        using resolvedToken_held by blast
      with True cfgMissing c1 ne show ?thesis
        by (simp add: stage_defs readyToSend_def afterToken_def afterResolution_def
              andThen_def consentArrived_case tryCatch_def tokenArrived_eq
              configurationArrived_eq transmitConsent_def modify_def issue_def ret_def)
    next
      case False
      with assms(2) have "tokenOf oc2 = Inr tok"
        by (simp add: resolvedToken_fetched)
      with False cfgMissing c1 ne show ?thesis
        by (simp add: stage_defs readyToSend_def afterToken_def afterResolution_def
              andThen_def consentArrived_case tryCatch_def tokenArrived_eq
              configurationArrived_eq transmitConsent_def modify_def issue_def ret_def)
    qed
  qed
  show ?thesis
    by (simp add: * consentArrived_pair[symmetric])
qed

lemma submitConsent_in_stages:
  "submitConsent c b oc1 oc2 oc3 w = submitInStages c b oc1 oc2 oc3 w"
proof (cases "resolvedConfigId c oc1")
  case None
  then show ?thesis by (simp add: submit_no_configuration stages_no_configuration)
next
  case (Some cfg)
  then show ?thesis
    by (cases "resolvedToken c oc2")
       (simp_all add: submit_no_token stages_no_token submit_transmits stages_transmit)
qed

lemma submitConsent_returns:
  "submitConsent c b oc1 oc2 oc3 w = (Inr (), snd (submitConsent c b oc1 oc2 oc3 w))"
proof (cases "resolvedConfigId c oc1")
  case None
  then show ?thesis by (simp add: submit_no_configuration)
next
  case (Some cfg)
  then show ?thesis
    by (cases "resolvedToken c oc2")
       (simp_all add: submit_no_token submit_transmits consentArrived_pair [symmetric])
qed

section \<open>What a submission sends\<close>

lemma request_methods [simp]:
  "req_method (configurationRequest c) = GET"
  "req_method (tokenRequest c) = GET"
  "req_method (vendorsRequest c) = GET"
  "req_method (consentRequest c cfg body) = POST"
  "req_body (configurationRequest c) = None"
  "req_body (tokenRequest c) = None"
  "req_body (vendorsRequest c) = None"
  "req_body (consentRequest c cfg body) = Some body"
  by (simp_all add: configurationRequest_def tokenRequest_def vendorsRequest_def
        consentRequest_def)

lemma tokenRequest_neq_configurationRequest: "tokenRequest c \<noteq> configurationRequest c"
  by (simp add: tokenRequest_def configurationRequest_def)

lemma consentRequest_neq [simp]:
  "consentRequest c cfg body \<noteq> configurationRequest c"
  "consentRequest c cfg body \<noteq> tokenRequest c"
  by (simp_all add: consentRequest_def tokenRequest_def configurationRequest_def)

lemma submitConsent_newRequests:
  "newRequests w (snd (submitConsent c b oc1 oc2 oc3 w)) =
     (if truthy (configId c) then [] else [configurationRequest c]) @
     (case resolvedConfigId c oc1 of
        None \<Rightarrow> []
      | Some cfg \<Rightarrow>
          (if truthy (currentUserToken c) then [] else [tokenRequest c]) @
          (case resolvedToken c oc2 of
             Inl e \<Rightarrow> []
           | Inr tok \<Rightarrow> [consentRequest c cfg (buildConsent c b cfg tok)]))"
  by (rule newRequests_append) (rule submitConsent_requests)

lemma submitConsent_transmitted:
  "transmitted w (snd (submitConsent c b oc1 oc2 oc3 w)) =
     (\<exists>cfg tok. resolvedConfigId c oc1 = Some cfg \<and> resolvedToken c oc2 = Inr tok)"
  by (simp add: transmitted_def submitConsent_newRequests split: option.splits sum.splits)

lemma submitConsent_sentConsents:
  "sentConsents w (snd (submitConsent c b oc1 oc2 oc3 w)) =
     (case resolvedConfigId c oc1 of
        None \<Rightarrow> []
      | Some cfg \<Rightarrow>
          (case resolvedToken c oc2 of
             Inl e \<Rightarrow> []
           | Inr tok \<Rightarrow> [buildConsent c b cfg tok]))"
  by (simp add: sentConsents_def submitConsent_newRequests
        split: option.splits sum.splits)

section \<open>A submission always returns\<close>

text \<open>
  C1. Whatever the three requests of a submission come to (a 2xx answer, any other
  status, a rejected \<^verbatim>\<open>fetch\<close>, an unreadable body), \<^verbatim>\<open>submitConsent\<close> returns
  normally: no exception leaves it, it reports to the user with exactly one dialog, and
  it leaves \<^verbatim>\<open>loading\<close> switched off.
\<close>

theorem submitConsent_always_reports:
  "\<exists>a w'. submitConsent c isAcceptAll ocConfiguration ocToken ocConsent w = (Inr (), w') \<and>
           alerts w' = alerts w @ [a] \<and> \<not> loading w'"
proof (cases "resolvedConfigId c ocConfiguration")
  case None
  then show ?thesis by (simp add: submit_no_configuration)
next
  case (Some cfg)
  show ?thesis
  proof (cases "resolvedToken c ocToken")
    case (Inl e)
    with Some show ?thesis by (simp add: submit_no_token)
  next
    case (Inr tok)
    obtain a w' where
      "consentArrived isAcceptAll tok ocConsent
         (readyToSend c isAcceptAll ocConfiguration cfg tok w) = (Inr (), w')"
      "alerts w' = alerts (readyToSend c isAcceptAll ocConfiguration cfg tok w) @ [a]"
      "\<not> loading w'"
      using consentArrived_total by blast
    with Some Inr show ?thesis by (simp add: submit_transmits)
  qed
qed

theorem submitConsent_always_reports_witness:
  "\<exists>a w'. submitConsent readyWorld False offline offline offline readyWorld = (Inr (), w') \<and>
           alerts w' = alerts readyWorld @ [a] \<and> \<not> loading w'"
  using submitConsent_always_reports [of readyWorld False offline offline offline readyWorld]
  by simp

section \<open>The example session\<close>

lemma example_outcomes [simp]:
  "configurationOf configurationCfg1 = Some ''cfg1''"
  "configurationOf offline = None"
  "tokenOf (tokenReply ''tok1'') = Inr ''tok1''"
  "tokenOf (tokenReply ''tok2'') = Inr ''tok2''"
  "tokenOf offline = Inl (NetworkError ''Network request failed'')"
  by (simp_all add: configurationOf_def tokenOf_def configurationCfg1_def offline_def
        tokenReply_def ok_def truthy_def)

lemma freshWorld_fields [simp]:
  "configId freshWorld = None"
  "currentUserToken freshWorld = None"
  "requests freshWorld = []"
  "alerts freshWorld = []"
  "storage freshWorld = []"
  "apiVendors freshWorld = VENDORS"
  "vendors freshWorld = []"
  "loading freshWorld = False"
  by (simp_all add: freshWorld_def initialWorld_def)

lemma readyWorld_explicit: "readyWorld = explicitReadyWorld"
  by (simp add: readyWorld_def explicitReadyWorld_def initializeApp_def fetchVendors_def
        action_defs fetchConfiguration_eq fetchToken_eq vendorsV1V2_def ok_def
        addVendor_def vendorKeyOf_def vendorInfoOf_def template_def orElse_def orDefault_def
        truthy_def freshWorld_def initialWorld_def DEFAULT_PROJECT_ID_def
        DEFAULT_ENVIRONMENT_def)

lemma readyWorld_fields [simp]:
  "configId readyWorld = Some ''cfg1''"
  "currentUserToken readyWorld = Some ''tok1''"
  "alerts readyWorld = []"
  "storage readyWorld = []"
  "loading readyWorld = False"
  "vendorsLoading readyWorld = False"
  "consentStatus readyWorld = NotSet"
  "lastConsentId readyWorld = None"
  "vendors readyWorld = [(''v1 (One)'', False), (''v2 (Two)'', False)]"
  by (simp_all add: readyWorld_explicit explicitReadyWorld_def)


lemma readyWorld_resolved [simp]:
  "resolvedConfigId readyWorld oc1 = Some ''cfg1''"
  "resolvedToken readyWorld oc2 = Inr ''tok1''"
  "truthy (configId readyWorld)"
  "truthy (currentUserToken readyWorld)"
  by (simp_all add: resolvedConfigId_def resolvedToken_def truthy_def)

lemma freshWorld_resolved [simp]:
  "resolvedConfigId freshWorld oc1 = configurationOf oc1"
  "resolvedToken freshWorld oc2 = tokenOf oc2"
  "\<not> truthy (configId freshWorld)"
  "\<not> truthy (currentUserToken freshWorld)"
  by (simp_all add: resolvedConfigId_def resolvedToken_def truthy_def)

section \<open>Resolution before transmission\<close>

text \<open>
  C7. A submission made while the configuration id or the token is not held first asks for
  it, and posts the consent only when it has both. The requests one call of
  \<^verbatim>\<open>submitConsent\<close> makes are, in this order: the configuration request exactly when
  the render holds no configuration id; then, provided a configuration id is at hand, the
  token request exactly when the render holds no token; then, provided a token is at hand
  too, the consent itself. \<open>resolvedConfigId\<close> is the id held or else what
  \<^verbatim>\<open>fetchConfiguration\<close> returns, \<open>resolvedToken\<close> the token held or else what
  \<^verbatim>\<open>fetchToken\<close> returns or throws; when either is missing nothing is posted.
\<close>

theorem submitConsent_resolves_then_transmits:
  "newRequests w (snd (submitConsent c b oc1 oc2 oc3 w)) =
     (if truthy (configId c) then [] else [configurationRequest c]) @
     (case resolvedConfigId c oc1 of
        None \<Rightarrow> []
      | Some cfg \<Rightarrow>
          (if truthy (currentUserToken c) then [] else [tokenRequest c]) @
          (case resolvedToken c oc2 of
             Inl e \<Rightarrow> []
           | Inr tok \<Rightarrow> [consentRequest c cfg (buildConsent c b cfg tok)])) \<and>
   transmitted w (snd (submitConsent c b oc1 oc2 oc3 w)) =
     (\<exists>cfg tok. resolvedConfigId c oc1 = Some cfg \<and> resolvedToken c oc2 = Inr tok) \<and>
   fst (fetchConfiguration c oc1 w) = Inr (configurationOf oc1) \<and>
   fst (fetchToken c oc2 w) = tokenOf oc2"
  by (simp add: submitConsent_newRequests submitConsent_transmitted fetchConfiguration_eq
        fetchToken_eq)

theorem submitConsent_resolves_then_transmits_witness:
  "newRequests freshWorld
     (snd (submitConsent freshWorld False configurationCfg1 (tokenReply ''tok1'')
             (replyWithId 201 (Some ''abc'')) freshWorld)) =
     [configurationRequest freshWorld, tokenRequest freshWorld,
      consentRequest freshWorld ''cfg1'' (buildConsent freshWorld False ''cfg1'' ''tok1'')] \<and>
   newRequests freshWorld
     (snd (submitConsent freshWorld False configurationCfg1 offline
             (replyWithId 201 (Some ''abc'')) freshWorld)) =
     [configurationRequest freshWorld, tokenRequest freshWorld] \<and>
   \<not> transmitted freshWorld
     (snd (submitConsent freshWorld False offline (tokenReply ''tok1'')
             (replyWithId 201 (Some ''abc'')) freshWorld)) \<and>
   newRequests readyWorld
     (snd (submitConsent readyWorld False offline offline
             (replyWithId 201 (Some ''abc'')) readyWorld)) =
     [consentRequest readyWorld ''cfg1'' (buildConsent readyWorld False ''cfg1'' ''tok1'')]"
  using
    submitConsent_resolves_then_transmits [of freshWorld freshWorld False configurationCfg1
      "tokenReply ''tok1''" "replyWithId 201 (Some ''abc'')"]
    submitConsent_resolves_then_transmits [of freshWorld freshWorld False configurationCfg1
      offline "replyWithId 201 (Some ''abc'')"]
    submitConsent_resolves_then_transmits [of freshWorld freshWorld False offline
      "tokenReply ''tok1''" "replyWithId 201 (Some ''abc'')"]
    submitConsent_resolves_then_transmits [of readyWorld readyWorld False offline
      offline "replyWithId 201 (Some ''abc'')"]
  by (simp add: truthy_def)

section \<open>The accept flag\<close>

text \<open>
  C9. Every consent that \<^verbatim>\<open>submitConsent\<close> posts has \<^verbatim>\<open>accept: true\<close> at its top
  level, whatever the switches say and whether or not the call was for all vendors; so
  has the payload of the earlier demo.
\<close>

theorem posted_accept_is_true:
  "(\<forall>body \<in> set (sentConsents w (snd (submitConsent c b oc1 oc2 oc3 w))). accept body) \<and>
   basic_accept (basicConsent vs b now)"
  by (auto simp: submitConsent_sentConsents buildConsent_def basicConsent_def
        split: option.splits sum.splits)

theorem posted_accept_is_true_witness:
  "sentConsents readyWorld
      (snd (submitConsent readyWorld False offline offline offline readyWorld)) =
     [buildConsent readyWorld False ''cfg1'' ''tok1''] \<and>
   preferences_vendors (buildConsent readyWorld False ''cfg1'' ''tok1'') =
     [(''v1 (One)'', False), (''v2 (Two)'', False)] \<and>
   accept (buildConsent readyWorld False ''cfg1'' ''tok1'') \<and>
   basic_accept (basicConsent [(''google_analytics'', False), (''facebook_pixel'', False),
                               (''mixpanel'', False)] False 1203)"
proof -
  have sent: "sentConsents readyWorld
      (snd (submitConsent readyWorld False offline offline offline readyWorld)) =
     [buildConsent readyWorld False ''cfg1'' ''tok1'']"
    by (simp add: submitConsent_sentConsents)
  have prefs: "preferences_vendors (buildConsent readyWorld False ''cfg1'' ''tok1'') =
     [(''v1 (One)'', False), (''v2 (Two)'', False)]"
    by (simp add: buildConsent_def buildVendorPreferences_def readyWorld_explicit
          explicitReadyWorld_def objKeys_def objGet_def formattedKey_def template_def)
  from posted_accept_is_true [of readyWorld readyWorld False offline offline offline
      "[(''google_analytics'', False), (''facebook_pixel'', False), (''mixpanel'', False)]" 1203]
  show ?thesis
    using sent prefs by simp
qed

section \<open>A 2xx answer\<close>

lemma submitConsent_transmitted_cases:
  assumes "transmitted w (snd (submitConsent c b oc1 oc2 oc3 w))"
  obtains cfg tok where "cfg \<noteq> []" and "tok \<noteq> []"
    and "submitConsent c b oc1 oc2 oc3 w = consentArrived b tok oc3 (readyToSend c b oc1 cfg tok w)"
    and "sentConsents w (snd (submitConsent c b oc1 oc2 oc3 w)) = [buildConsent c b cfg tok]"
proof -
  from assms obtain cfg tok where r: "resolvedConfigId c oc1 = Some cfg" "resolvedToken c oc2 = Inr tok"
    by (auto simp: submitConsent_transmitted)
  then have "cfg \<noteq> []" "tok \<noteq> []"
    by (auto dest: resolvedConfigId_truthy resolvedToken_truthy)
  moreover have "submitConsent c b oc1 oc2 oc3 w =
      consentArrived b tok oc3 (readyToSend c b oc1 cfg tok w)"
    using r by (rule submit_transmits)
  moreover have "sentConsents w (snd (submitConsent c b oc1 oc2 oc3 w)) = [buildConsent c b cfg tok]"
    using r by (simp add: submitConsent_sentConsents)
  ultimately show ?thesis by (rule that)
qed

text \<open>
  C4, as the code has it. When a posted consent is answered with a 2xx status and a body
  other than the JSON literal \<^verbatim>\<open>null\<close>, the call takes the success branch: the
  status line becomes "all accepted" or "custom preferences", and \<^verbatim>\<open>lastConsentId\<close>
  becomes the first non-empty of \<^verbatim>\<open>id\<close>, \<^verbatim>\<open>_id\<close>, \<^verbatim>\<open>consentId\<close>,
  \<^verbatim>\<open>uuid\<close>, \<^verbatim>\<open>insertedId\<close> in the body, or the string \<^verbatim>\<open>saved\<close> when there
  is none. The marker is an ordinary string: the caller can tell "no id" from "an id"
  exactly when the server's id is not itself \<^verbatim>\<open>saved\<close>. A 201 with id \<^verbatim>\<open>abc\<close>
  records \<^verbatim>\<open>abc\<close>.
\<close>

theorem success_records_id_or_saved:
  assumes "submitConsent c b oc1 oc2 (Resolved r) w = (res, w')"
    and "transmitted w w'"
    and "ok r"
    and "parseReply r = Json d"
  shows "res = Inr () \<and>
    consentStatus w' = (if b then AllAccepted else CustomPreferences) \<and>
    lastConsentId w' = Some (orDefault (serverAssignedId d) ''saved'') \<and>
    (lastConsentId w' = Some ''saved'') =
      (\<not> truthy (serverAssignedId d) \<or> serverAssignedId d = Some ''saved'') \<and>
    (\<exists>tok. alerts w' = alerts w @
       [SuccessAlert (status r)
          (if orDefault (serverAssignedId d) ''saved'' = ''saved'' then None
           else Some (orDefault (serverAssignedId d) ''saved'')) tok])"
proof -
  have w': "w' = snd (submitConsent c b oc1 oc2 (Resolved r) w)"
    using assms(1) by simp
  from assms(2) obtain cfg tok where
    eq: "submitConsent c b oc1 oc2 (Resolved r) w =
          consentArrived b tok (Resolved r) (readyToSend c b oc1 cfg tok w)"
    unfolding w' by (rule submitConsent_transmitted_cases)
  have "consentArrived b tok (Resolved r) (readyToSend c b oc1 cfg tok w) = (res, w')"
    using assms(1) eq by simp
  with assms(3,4) show ?thesis
    by (auto simp: consentArrived_saved orDefault_def truthy_def split: option.splits)
qed

lemma choosingWorld_fields [simp]:
  "resolvedConfigId choosingWorld oc1 = Some ''cfg1''"
  "resolvedToken choosingWorld oc2 = Inr ''tok1''"
  "vendors choosingWorld = [(''v1 (One)'', True), (''v2 (Two)'', False)]"
  "apiVendors choosingWorld = apiVendors readyWorld"
  by (simp_all add: choosingWorld_def toggleVendor_def modify_def resolvedConfigId_def
        resolvedToken_def truthy_def objGet_def)

lemma consentRecord_fields [simp]:
  "status (consentRecord code i) = code"
  "parseReply (consentRecord code i) =
     Json \<lparr>reply_id = i, reply__id = None, reply_consentId = None,
           reply_uuid = None, reply_insertedId = None, reply_message = None\<rparr>"
  "ok (consentRecord 201 i)"
  "ok (consentRecord 200 i)"
  by (simp_all add: consentRecord_def parseReply_def ok_def)

theorem success_records_id_or_saved_witness:
  "transmitted choosingWorld confirmedWorld \<and>
   ok (consentRecord 201 (Some ''abc'')) \<and>
   preferences_vendors (buildConsent choosingWorld False ''cfg1'' ''tok1'') =
     [(''v1 (One)'', True), (''v2 (Two)'', False)] \<and>
   sentConsents choosingWorld confirmedWorld = [buildConsent choosingWorld False ''cfg1'' ''tok1''] \<and>
   consentStatus confirmedWorld = CustomPreferences \<and>
   lastConsentId confirmedWorld = Some ''abc'' \<and>
   lastConsentId confirmedWorld \<noteq> Some ''saved''"
proof -
  have run: "submitConsent choosingWorld False offline offline
      (Resolved (consentRecord 201 (Some ''abc''))) choosingWorld = (Inr (), confirmedWorld)"
    unfolding confirmedWorld_def replyWithId_def
    by (rule submitConsent_returns)
  have tr: "transmitted choosingWorld confirmedWorld"
    by (simp add: confirmedWorld_def submitConsent_transmitted)
  have sent: "sentConsents choosingWorld confirmedWorld =
      [buildConsent choosingWorld False ''cfg1'' ''tok1'']"
    by (simp add: confirmedWorld_def submitConsent_sentConsents)
  have prefs: "preferences_vendors (buildConsent choosingWorld False ''cfg1'' ''tok1'') =
     [(''v1 (One)'', True), (''v2 (Two)'', False)]"
    by (simp add: buildConsent_def buildVendorPreferences_def readyWorld_explicit
          explicitReadyWorld_def objKeys_def objGet_def formattedKey_def template_def)
  from success_records_id_or_saved [OF run tr consentRecord_fields(3) consentRecord_fields(2)]
  show ?thesis
    using tr sent prefs
    by (simp add: serverAssignedId_def orElse_def orDefault_def truthy_def)
qed

text \<open>
  C4 as stated fails where it asks that a missing id and a present one stay apart: a body
  whose id is the string \<^verbatim>\<open>saved\<close> and a body with no id at all leave the client in
  the same state, dialog included.
\<close>

theorem saved_marker_collides:
  "submitConsent readyWorld False offline offline (replyWithId 200 (Some ''saved'')) readyWorld =
   submitConsent readyWorld False offline offline (replyWithId 200 None) readyWorld"
  by (simp add: submit_transmits replyWithId_def consentArrived_saved serverAssignedId_def
        orElse_def orDefault_def truthy_def)

section \<open>A 500 answer\<close>

text \<open>
  C8, as the code has it. When a posted consent is answered with status 500, the call
  shows the status and the body in a dialog and returns: the status line and
  \<^verbatim>\<open>lastConsentId\<close> stay as they were, \<^verbatim>\<open>loading\<close> is switched off, and the consent
  has been posted once. The state has no queue, attempt counter or dead-letter list, and
  nothing posts the consent again.
\<close>

theorem server_error_is_only_reported:
  assumes "submitConsent c b oc1 oc2 (Resolved r) w = (res, w')"
    and "transmitted w w'"
    and "status r = 500"
  shows "res = Inr () \<and>
    consentStatus w' = consentStatus w \<and>
    lastConsentId w' = lastConsentId w \<and>
    length (sentConsents w w') = 1 \<and>
    alerts w' = alerts w @ [ApiResponseAlert 500 (parseReply r)] \<and>
    \<not> loading w'"
proof -
  have w': "w' = snd (submitConsent c b oc1 oc2 (Resolved r) w)"
    using assms(1) by simp
  from assms(2) obtain cfg tok where
    eq: "submitConsent c b oc1 oc2 (Resolved r) w =
          consentArrived b tok (Resolved r) (readyToSend c b oc1 cfg tok w)"
    and sent: "sentConsents w (snd (submitConsent c b oc1 oc2 (Resolved r) w)) =
          [buildConsent c b cfg tok]"
    unfolding w' by (rule submitConsent_transmitted_cases)
  have "\<not> ok r" "status r \<noteq> 201"
    using assms(3) by (simp_all add: ok_def)
  then have "consentArrived b tok (Resolved r) (readyToSend c b oc1 cfg tok w) =
    (Inr (), (readyToSend c b oc1 cfg tok w)\<lparr>
        alerts := alerts (readyToSend c b oc1 cfg tok w) @
                    [ApiResponseAlert (status r) (parseReply r)],
        loading := False, modalVisible := False\<rparr>)"
    by (rule consentArrived_refused)
  with assms(1,3) eq sent w' show ?thesis
    by auto
qed

theorem server_error_is_only_reported_witness:
  "transmitted readyWorld refusedWorld \<and>
   status serverErrorResponse = 500 \<and>
   consentStatus refusedWorld = NotSet \<and>
   lastConsentId refusedWorld = None \<and>
   length (sentConsents readyWorld refusedWorld) = 1 \<and>
   alerts refusedWorld = [ApiResponseAlert 500 (parseReply serverErrorResponse)] \<and>
   \<not> loading refusedWorld"
proof -
  have run: "submitConsent readyWorld False offline offline (Resolved serverErrorResponse)
      readyWorld = (Inr (), refusedWorld)"
    unfolding refusedWorld_def serverError_def
    by (rule submitConsent_returns)
  have tr: "transmitted readyWorld refusedWorld"
    by (simp add: refusedWorld_def submitConsent_transmitted)
  have st: "status serverErrorResponse = 500"
    by (simp add: serverErrorResponse_def)
  from server_error_is_only_reported [OF run tr st] show ?thesis
    using tr st by simp
qed

text \<open>
  C8 as stated fails: after a 500 the client is as it was before the submission, but for
  the token it remembers having used, the one request it sent and the one dialog it
  showed. The status line still reads "not set"; no record of the decision is kept that
  a later retry could send.
\<close>

theorem no_retry_after_server_error:
  "refusedWorld =
     readyWorld\<lparr>lastConsentToken := Some ''tok1'',
       alerts := [ApiResponseAlert 500 (parseReply serverErrorResponse)],
       requests := requests readyWorld @
         [consentRequest readyWorld ''cfg1'' (buildConsent readyWorld False ''cfg1'' ''tok1'')]\<rparr> \<and>
   consentStatus refusedWorld = NotSet"
proof -
  have eq: "refusedWorld =
      (readyToSend readyWorld False offline ''cfg1'' ''tok1'' readyWorld)\<lparr>
         alerts := alerts (readyToSend readyWorld False offline ''cfg1'' ''tok1'' readyWorld) @
                     [ApiResponseAlert (status serverErrorResponse)
                        (parseReply serverErrorResponse)],
         loading := False, modalVisible := False\<rparr>"
    by (simp add: refusedWorld_def serverError_def submit_transmits consentArrived_refused
          serverErrorResponse_def ok_def)
  show ?thesis
    by (simp add: eq readyToSend_def afterToken_def afterResolution_def serverErrorResponse_def
          truthy_def readyWorld_explicit explicitReadyWorld_def)
qed

section \<open>Resolving the configuration\<close>

text \<open>
  C3, as the code has it. \<^verbatim>\<open>fetchConfiguration\<close> asks the service on every call. It
  yields nothing (\<^verbatim>\<open>null\<close>, which its callers report as "could not fetch
  configuration") and leaves the state alone when the request is rejected, when the
  status is not 2xx, and when the body has no non-empty \<^verbatim>\<open>defaultConfigId\<close>; otherwise
  it returns the id and stores it in \<^verbatim>\<open>configId\<close>. The stored id is read by the
  callers: a submission from a render that holds an id does not ask for the configuration
  and posts under the id it holds.
\<close>

theorem fetchConfiguration_contract:
  "(oc = Rejected msg \<or>
    oc = Resolved r \<and> (\<not> ok r \<or> (\<forall>d. bodyJson r = Json d \<longrightarrow> \<not> truthy (defaultConfigId d)))
     \<longrightarrow> fetchConfiguration c oc w =
           (Inr None, w\<lparr>requests := requests w @ [configurationRequest c]\<rparr>)) \<and>
   (oc = Resolved r \<and> ok r \<and> bodyJson r = Json d \<and> truthy (defaultConfigId d)
     \<longrightarrow> fetchConfiguration c oc w =
           (Inr (defaultConfigId d),
            w\<lparr>requests := requests w @ [configurationRequest c],
              configId := defaultConfigId d\<rparr>)) \<and>
   (truthy (configId c)
     \<longrightarrow> configurationRequest c \<notin> set (newRequests w (snd (submitConsent c b oc oc2 oc3 w))) \<and>
         (\<forall>body \<in> set (sentConsents w (snd (submitConsent c b oc oc2 oc3 w))).
            Some (config_id (preferences_config body)) = configId c))"
proof (intro conjI impI)
  assume "oc = Rejected msg \<or>
    oc = Resolved r \<and> (\<not> ok r \<or> (\<forall>d. bodyJson r = Json d \<longrightarrow> \<not> truthy (defaultConfigId d)))"
  then have "configurationOf oc = None"
    by (auto simp: configurationOf_def split: parsed.splits)
  then show "fetchConfiguration c oc w =
      (Inr None, w\<lparr>requests := requests w @ [configurationRequest c]\<rparr>)"
    by (simp add: fetchConfiguration_eq)
next
  assume "oc = Resolved r \<and> ok r \<and> bodyJson r = Json d \<and> truthy (defaultConfigId d)"
  then have "configurationOf oc = defaultConfigId d" "defaultConfigId d \<noteq> None"
    by (auto simp: configurationOf_def truthy_def split: option.splits)
  then show "fetchConfiguration c oc w =
      (Inr (defaultConfigId d),
       w\<lparr>requests := requests w @ [configurationRequest c], configId := defaultConfigId d\<rparr>)"
    by (auto simp: fetchConfiguration_eq)
next
  assume held: "truthy (configId c)"
  then show "configurationRequest c \<notin>
      set (newRequests w (snd (submitConsent c b oc oc2 oc3 w)))"
    using tokenRequest_neq_configurationRequest [of c]
    by (auto simp: submitConsent_newRequests configurationRequest_def consentRequest_def
          split: option.splits sum.splits)
  from held show "\<forall>body \<in> set (sentConsents w (snd (submitConsent c b oc oc2 oc3 w))).
      Some (config_id (preferences_config body)) = configId c"
    by (auto simp: submitConsent_sentConsents resolvedConfigId_def buildConsent_def
          split: option.splits sum.splits)
qed

lemma configuredWorld_explicit:
  "configuredWorld = freshWorld\<lparr>requests := [configurationRequest freshWorld],
                                configId := Some ''cfg1''\<rparr>"
  by (simp add: configuredWorld_def fetchConfiguration_eq)

theorem fetchConfiguration_contract_witness:
  "fetchConfiguration freshWorld offline freshWorld =
     (Inr None, freshWorld\<lparr>requests := requests freshWorld @ [configurationRequest freshWorld]\<rparr>) \<and>
   fetchConfiguration freshWorld configurationCfg1 freshWorld =
     (Inr (Some ''cfg1''),
      freshWorld\<lparr>requests := requests freshWorld @ [configurationRequest freshWorld],
                 configId := Some ''cfg1''\<rparr>) \<and>
   truthy (configId readyWorld) \<and>
   configurationRequest readyWorld \<notin>
     set (newRequests readyWorld
            (snd (submitConsent readyWorld False offline offline offline readyWorld))) \<and>
   map (\<lambda>body. config_id (preferences_config body))
     (sentConsents readyWorld
        (snd (submitConsent readyWorld False offline offline offline readyWorld))) = [''cfg1'']"
proof -
  have sent: "sentConsents readyWorld
      (snd (submitConsent readyWorld False offline offline offline readyWorld)) =
     [buildConsent readyWorld False ''cfg1'' ''tok1'']"
    by (simp add: submitConsent_sentConsents)
  have a: "fetchConfiguration freshWorld offline freshWorld =
     (Inr None, freshWorld\<lparr>requests := requests freshWorld @ [configurationRequest freshWorld]\<rparr>)"
    using fetchConfiguration_contract [of offline "''Network request failed''"
        "\<lparr>status = 200, bodyText = ''(configuration cfg1)'',
          bodyJson = Json \<lparr>defaultConfigId = Some ''cfg1''\<rparr>\<rparr>"
        freshWorld freshWorld "\<lparr>defaultConfigId = Some ''cfg1''\<rparr>" False offline offline]
    by (simp add: offline_def)
  have b: "fetchConfiguration freshWorld configurationCfg1 freshWorld =
     (Inr (Some ''cfg1''),
      freshWorld\<lparr>requests := requests freshWorld @ [configurationRequest freshWorld],
                 configId := Some ''cfg1''\<rparr>)"
    using fetchConfiguration_contract [of configurationCfg1 "''Network request failed''"
        "\<lparr>status = 200, bodyText = ''(configuration cfg1)'',
          bodyJson = Json \<lparr>defaultConfigId = Some ''cfg1''\<rparr>\<rparr>"
        freshWorld freshWorld "\<lparr>defaultConfigId = Some ''cfg1''\<rparr>" False offline offline]
    by (simp add: configurationCfg1_def ok_def truthy_def)
  have c: "configurationRequest readyWorld \<notin>
     set (newRequests readyWorld
            (snd (submitConsent readyWorld False offline offline offline readyWorld)))"
    using fetchConfiguration_contract [of offline "''Network request failed''"
        "\<lparr>status = 200, bodyText = ''(configuration cfg1)'',
          bodyJson = Json \<lparr>defaultConfigId = Some ''cfg1''\<rparr>\<rparr>"
        readyWorld readyWorld "\<lparr>defaultConfigId = Some ''cfg1''\<rparr>" False offline offline]
    by (simp add: truthy_def)
  show ?thesis
    using a b c sent by (simp add: buildConsent_def truthy_def)
qed

text \<open>
  C3 as stated fails where it has later calls return the cached configuration: with an
  id stored by a first, successful call, a second call made while the service cannot be
  reached returns nothing.
\<close>

theorem fetchConfiguration_asks_again:
  "fst (fetchConfiguration freshWorld configurationCfg1 freshWorld) = Inr (Some ''cfg1'') \<and>
   configId configuredWorld = Some ''cfg1'' \<and>
   fst (fetchConfiguration configuredWorld offline configuredWorld) = Inr None \<and>
   requests (snd (fetchConfiguration configuredWorld offline configuredWorld)) =
     [configurationRequest freshWorld, configurationRequest configuredWorld]"
  by (simp add: configuredWorld_explicit fetchConfiguration_eq)

section \<open>Loading the vendors\<close>

lemma objGet_objSet: "objGet (objSet k v obj) k' = (if k' = k then Some v else objGet obj k')"
  by (induction obj) (auto simp: objGet_def)

lemma objKeys_objSet:
  "objKeys (objSet k v obj) = (if k \<in> set (objKeys obj) then objKeys obj else objKeys obj @ [k])"
  by (induction obj) (force simp: objKeys_def)+

lemma foldl_addVendor_fst:
  "fst (foldl addVendor acc vs) =
     foldl (\<lambda>vendorMap vendor. objSet (vendorKeyOf vendor) (vendorInfoOf vendor) vendorMap)
       (fst acc) vs"
  by (induction vs arbitrary: acc) (auto simp: addVendor_def split: prod.splits)

lemma foldl_addVendor_snd:
  "snd (foldl addVendor acc vs) =
     foldl (\<lambda>vendorPreferences vendor. objSet (vendorKeyOf vendor) False vendorPreferences)
       (snd acc) vs"
  by (induction vs arbitrary: acc) (auto simp: addVendor_def split: prod.splits)

lemma preferences_never_True:
  "objGet (foldl (\<lambda>vp vendor. objSet (f vendor) False vp) vp0 vs) k = Some True \<Longrightarrow>
     objGet vp0 k = Some True"
proof (induction vs arbitrary: vp0)
  case Nil
  then show ?case by simp
next
  case (Cons a vs)
  then have "objGet (objSet (f a) False vp0) k = Some True"
    by simp
  then show ?case
    by (simp add: objGet_objSet split: if_splits)
qed

lemma preferences_False:
  "vendor \<in> set vs \<or> objGet vp0 (f vendor) = Some False \<Longrightarrow>
     objGet (foldl (\<lambda>vp vendor. objSet (f vendor) False vp) vp0 vs) (f vendor) = Some False"
proof (induction vs arbitrary: vp0)
  case Nil
  then show ?case by simp
next
  case (Cons a vs)
  have "vendor \<in> set vs \<or> objGet (objSet (f a) False vp0) (f vendor) = Some False"
    using Cons.prems by (auto simp: objGet_objSet)
  then show ?case
    using Cons.IH by simp
qed

lemma keys_agree:
  "objKeys vm0 = objKeys vp0 \<Longrightarrow>
     objKeys (foldl (\<lambda>vp vendor. objSet (f vendor) False vp) vp0 vs) =
     objKeys (foldl (\<lambda>vm vendor. objSet (f vendor) (g vendor) vm) vm0 vs)"
  by (induction vs arbitrary: vm0 vp0) (auto simp: objKeys_objSet)

lemma hardcodedPreferences_eq:
  "hardcodedPreferences =
     [(''google_analytics'', False), (''facebook_pixel'', False), (''mixpanel'', False)]"
  by (simp add: hardcodedPreferences_def VENDORS_def objKeys_def)

lemma fetchVendors_failed:
  assumes "oc = Rejected msg \<or> oc = Resolved r \<and> (\<not> ok r \<or> bodyJson r = Malformed)"
  shows "fetchVendors c oc w =
    (Inr None, w\<lparr>requests := requests w @ [vendorsRequest c],
                 vendors := hardcodedPreferences, vendorsLoading := False\<rparr>)"
  using assms by (auto simp: fetchVendors_def action_defs)

lemma fetchVendors_loaded:
  assumes "oc = Resolved r" and "ok r" and "bodyJson r = Json d" and "vendors_array d = Some vs"
  shows "fetchVendors c oc w =
    (Inr (Some (fst (foldl addVendor ([], []) vs))),
     w\<lparr>requests := requests w @ [vendorsRequest c],
       apiVendors := fst (foldl addVendor ([], []) vs),
       vendors := snd (foldl addVendor ([], []) vs), vendorsLoading := False\<rparr>)"
  using assms by (auto simp: fetchVendors_def action_defs split: prod.splits)

lemma fetchVendors_unusable:
  assumes "oc = Resolved r" and "ok r"
    and "bodyJson r = JsonNull \<or> (\<exists>d. bodyJson r = Json d \<and> vendors_array d = None)"
  shows "fetchVendors c oc w =
    (Inr None, w\<lparr>requests := requests w @ [vendorsRequest c], vendorsLoading := False\<rparr>)"
  using assms by (auto simp: fetchVendors_def action_defs)

lemma fetchVendors_failed_cases:
  "fetchVendors c (Rejected msg) w =
    (Inr None, w\<lparr>requests := requests w @ [vendorsRequest c],
                 vendors := hardcodedPreferences, vendorsLoading := False\<rparr>)"
  "\<not> ok r \<Longrightarrow> fetchVendors c (Resolved r) w =
    (Inr None, w\<lparr>requests := requests w @ [vendorsRequest c],
                 vendors := hardcodedPreferences, vendorsLoading := False\<rparr>)"
  "bodyJson r = Malformed \<Longrightarrow> fetchVendors c (Resolved r) w =
    (Inr None, w\<lparr>requests := requests w @ [vendorsRequest c],
                 vendors := hardcodedPreferences, vendorsLoading := False\<rparr>)"
  using fetchVendors_failed [of "Rejected msg" msg r c w]
    fetchVendors_failed [of "Resolved r" msg r c w]
  by auto

text \<open>
  C10. When the vendor list has been loaded from the service, every vendor of the
  response has the preference \<^verbatim>\<open>false\<close>, the preferences have exactly the keys of the
  new vendor list, and none is \<^verbatim>\<open>true\<close>. More generally no call of
  \<^verbatim>\<open>fetchVendors\<close>, however it ends, switches a vendor on: it either leaves the
  preferences as they were or leaves them all \<^verbatim>\<open>false\<close>.
\<close>

theorem loaded_vendors_start_rejected:
  "(oc = Resolved r \<and> ok r \<and> bodyJson r = Json d \<and> vendors_array d = Some vs \<longrightarrow>
      fst (fetchVendors c oc w) = Inr (Some (apiVendors (snd (fetchVendors c oc w)))) \<and>
      (\<forall>vendor \<in> set vs.
         objGet (vendors (snd (fetchVendors c oc w))) (vendorKeyOf vendor) = Some False) \<and>
      objKeys (vendors (snd (fetchVendors c oc w))) =
        objKeys (apiVendors (snd (fetchVendors c oc w))) \<and>
      (\<forall>k. objGet (vendors (snd (fetchVendors c oc w))) k \<noteq> Some True)) \<and>
   (vendors (snd (fetchVendors c oc w)) = vendors w \<or>
    (\<forall>k. objGet (vendors (snd (fetchVendors c oc w))) k \<noteq> Some True))"
proof (intro conjI impI)
  assume a: "oc = Resolved r \<and> ok r \<and> bodyJson r = Json d \<and> vendors_array d = Some vs"
  then have eq: "fetchVendors c oc w =
    (Inr (Some (fst (foldl addVendor ([], []) vs))),
     w\<lparr>requests := requests w @ [vendorsRequest c],
       apiVendors := fst (foldl addVendor ([], []) vs),
       vendors := snd (foldl addVendor ([], []) vs), vendorsLoading := False\<rparr>)"
    using fetchVendors_loaded [of oc r d vs c w] by simp
  show "fst (fetchVendors c oc w) = Inr (Some (apiVendors (snd (fetchVendors c oc w))))"
    by (simp add: eq)
  show "\<forall>vendor \<in> set vs.
      objGet (vendors (snd (fetchVendors c oc w))) (vendorKeyOf vendor) = Some False"
    by (simp add: eq foldl_addVendor_snd preferences_False)
  show "objKeys (vendors (snd (fetchVendors c oc w))) =
      objKeys (apiVendors (snd (fetchVendors c oc w)))"
    using keys_agree [of "[] :: (string \<times> vendor_info) list" "[]" vendorKeyOf vs vendorInfoOf]
    by (simp add: eq foldl_addVendor_snd foldl_addVendor_fst objKeys_def)
  show "\<forall>k. objGet (vendors (snd (fetchVendors c oc w))) k \<noteq> Some True"
  proof
    fix k
    have "objGet ([] :: (string \<times> bool) list) k \<noteq> Some True"
      by (simp add: objGet_def)
    then show "objGet (vendors (snd (fetchVendors c oc w))) k \<noteq> Some True"
      using preferences_never_True [of vendorKeyOf "[]" vs k]
      by (auto simp: eq foldl_addVendor_snd)
  qed
next
  show "vendors (snd (fetchVendors c oc w)) = vendors w \<or>
    (\<forall>k. objGet (vendors (snd (fetchVendors c oc w))) k \<noteq> Some True)"
  proof (cases oc)
    case (Rejected msg)
    then show ?thesis
      by (simp add: fetchVendors_failed_cases hardcodedPreferences_eq objGet_def)
  next
    case (Resolved r')
    show ?thesis
    proof (cases "ok r'")
      case False
      with Resolved show ?thesis
        by (simp add: fetchVendors_failed_cases hardcodedPreferences_eq objGet_def)
    next
      case True
      show ?thesis
      proof (cases "bodyJson r'")
        case Malformed
        with Resolved show ?thesis
          by (simp add: fetchVendors_failed_cases hardcodedPreferences_eq objGet_def)
      next
        case JsonNull
        with Resolved True show ?thesis
          by (simp add: fetchVendors_unusable)
      next
        case (Json d')
        show ?thesis
        proof (cases "vendors_array d'")
          case None
          with Resolved True Json show ?thesis
            by (simp add: fetchVendors_unusable)
        next
          case (Some vs')
          have "\<And>k. objGet (foldl (\<lambda>vp vendor. objSet (vendorKeyOf vendor) False vp) [] vs') k
                  \<noteq> Some True"
            using preferences_never_True [of vendorKeyOf "[]" vs']
            by (auto simp: objGet_def)
          with Resolved True Json Some show ?thesis
            by (simp add: fetchVendors_loaded foldl_addVendor_snd)
        qed
      qed
    qed
  qed
qed

theorem loaded_vendors_start_rejected_witness:
  "ok \<lparr>status = 200, bodyText = ''(vendors v1 and v2)'',
       bodyJson = Json \<lparr>vendors_array = Some
        [\<lparr>vendor_id = Some ''v1'', vendor_title = Some ''One'', vendor_name = None,
          vendor_description = None, vendor_image = None\<rparr>,
         \<lparr>vendor_id = Some ''v2'', vendor_title = None, vendor_name = Some ''Two'',
          vendor_description = Some ''Second vendor'', vendor_image = None\<rparr>]\<rparr>\<rparr> \<and>
   objGet (vendors (snd (fetchVendors choosingWorld vendorsV1V2 choosingWorld))) ''v1 (One)''
     = Some False \<and>
   objGet (vendors choosingWorld) ''v1 (One)'' = Some True \<and>
   objGet (vendors (snd (fetchVendors choosingWorld vendorsV1V2 choosingWorld))) ''v2 (Two)''
     = Some False \<and>
   objKeys (vendors (snd (fetchVendors choosingWorld vendorsV1V2 choosingWorld))) =
     objKeys (apiVendors (snd (fetchVendors choosingWorld vendorsV1V2 choosingWorld)))"
  using loaded_vendors_start_rejected [of vendorsV1V2
      "\<lparr>status = 200, bodyText = ''(vendors v1 and v2)'',
       bodyJson = Json \<lparr>vendors_array = Some
        [\<lparr>vendor_id = Some ''v1'', vendor_title = Some ''One'', vendor_name = None,
          vendor_description = None, vendor_image = None\<rparr>,
         \<lparr>vendor_id = Some ''v2'', vendor_title = None, vendor_name = Some ''Two'',
          vendor_description = Some ''Second vendor'', vendor_image = None\<rparr>]\<rparr>\<rparr>"
      "\<lparr>vendors_array = Some
        [\<lparr>vendor_id = Some ''v1'', vendor_title = Some ''One'', vendor_name = None,
          vendor_description = None, vendor_image = None\<rparr>,
         \<lparr>vendor_id = Some ''v2'', vendor_title = None, vendor_name = Some ''Two'',
          vendor_description = Some ''Second vendor'', vendor_image = None\<rparr>]\<rparr>"
      "[\<lparr>vendor_id = Some ''v1'', vendor_title = Some ''One'', vendor_name = None,
          vendor_description = None, vendor_image = None\<rparr>,
         \<lparr>vendor_id = Some ''v2'', vendor_title = None, vendor_name = Some ''Two'',
          vendor_description = Some ''Second vendor'', vendor_image = None\<rparr>]"
      choosingWorld choosingWorld]
  by (simp add: vendorsV1V2_def ok_def vendorKeyOf_def template_def orElse_def truthy_def
        objGet_def)

text \<open>
  C6, as the code has it. When the vendor request is rejected, answered with a status
  other than 2xx, or answered with a body that is not JSON, \<^verbatim>\<open>fetchVendors\<close> does
  not throw: it returns \<^verbatim>\<open>null\<close>, resets the preferences to the three built-in
  vendors, all \<^verbatim>\<open>false\<close>, switches \<^verbatim>\<open>vendorsLoading\<close> off, and leaves the vendor
  list and the configuration id as they were. Until a load has succeeded the vendor list
  is the built-in one. There is no marker for an incomplete list.
\<close>

theorem vendor_failure_falls_back:
  assumes "oc = Rejected msg \<or> oc = Resolved r \<and> (\<not> ok r \<or> bodyJson r = Malformed)"
  shows "fetchVendors c oc w =
      (Inr None,
       w\<lparr>requests := requests w @ [vendorsRequest c],
         vendors := [(''google_analytics'', False), (''facebook_pixel'', False),
                     (''mixpanel'', False)],
         vendorsLoading := False\<rparr>) \<and>
    apiVendors (snd (fetchVendors c oc w)) = apiVendors w \<and>
    configId (snd (fetchVendors c oc w)) = configId w"
  using fetchVendors_failed [OF assms, of c w]
  by (simp add: hardcodedPreferences_eq)

theorem vendor_failure_falls_back_witness:
  "fetchVendors readyWorld offline readyWorld =
      (Inr None,
       readyWorld\<lparr>requests := requests readyWorld @ [vendorsRequest readyWorld],
         vendors := [(''google_analytics'', False), (''facebook_pixel'', False),
                     (''mixpanel'', False)],
         vendorsLoading := False\<rparr>) \<and>
   objKeys (apiVendors (snd (fetchVendors readyWorld offline readyWorld))) =
     [''v1 (One)'', ''v2 (Two)''] \<and>
   configId (snd (fetchVendors readyWorld offline readyWorld)) = Some ''cfg1''"
proof -
  have "(offline :: vendors_data outcome) = Rejected ''Network request failed'' \<or>
      offline = Resolved \<lparr>status = 500, bodyText = [], bodyJson = Malformed\<rparr> \<and>
      (\<not> ok \<lparr>status = 500, bodyText = [], bodyJson = Malformed :: vendors_data parsed\<rparr> \<or>
       bodyJson \<lparr>status = 500, bodyText = [], bodyJson = Malformed :: vendors_data parsed\<rparr>
         = Malformed)"
    by (simp add: offline_def)
  from vendor_failure_falls_back [OF this, of readyWorld readyWorld]
  show ?thesis
    by (simp add: readyWorld_explicit explicitReadyWorld_def objKeys_def)
qed

text \<open>
  C6 as stated fails: on a fresh start with the configuration fetched and the vendor
  request rejected, nothing is returned, and the vendor list the client goes on with is
  not empty but the three built-in vendors.
\<close>

theorem vendor_list_not_emptied:
  "fst (fetchVendors configuredWorld offline configuredWorld) = Inr None \<and>
   objKeys (apiVendors (snd (fetchVendors configuredWorld offline configuredWorld))) =
     [''google_analytics'', ''facebook_pixel'', ''mixpanel''] \<and>
   vendors (snd (fetchVendors configuredWorld offline configuredWorld)) =
     [(''google_analytics'', False), (''facebook_pixel'', False), (''mixpanel'', False)] \<and>
   configId (snd (fetchVendors configuredWorld offline configuredWorld)) = Some ''cfg1''"
  by (simp add: offline_def fetchVendors_failed_cases hardcodedPreferences_eq
        configuredWorld_explicit VENDORS_def objKeys_def)

section \<open>The identity token\<close>

lemma consentArrived_currentUserToken:
  "currentUserToken (snd (consentArrived b tok oc w)) = currentUserToken w"
  using consentArrived_total [of b tok oc w] by auto

lemma fetchVendors_total:
  "\<exists>res w'. fetchVendors c oc w = (Inr res, w') \<and> currentUserToken w' = currentUserToken w \<and>
     configId w' = configId w \<and> storage w' = storage w"
proof (cases oc)
  case (Rejected msg)
  then show ?thesis by (simp add: fetchVendors_failed_cases)
next
  case (Resolved r)
  show ?thesis
  proof (cases "ok r")
    case False
    with Resolved show ?thesis by (simp add: fetchVendors_failed_cases)
  next
    case True
    show ?thesis
    proof (cases "bodyJson r")
      case Malformed
      with Resolved show ?thesis by (simp add: fetchVendors_failed_cases)
    next
      case JsonNull
      with Resolved True show ?thesis by (simp add: fetchVendors_unusable)
    next
      case (Json d)
      with Resolved True show ?thesis
        by (cases "vendors_array d") (simp_all add: fetchVendors_unusable fetchVendors_loaded)
    qed
  qed
qed

lemma initializeApp_token:
  "fst (initializeApp c oc1 oc2 oc3 w) = Inr () \<and>
   currentUserToken (snd (initializeApp c oc1 oc2 oc3 w)) =
     (case tokenOf oc3 of Inr t \<Rightarrow> Some t | Inl e \<Rightarrow> currentUserToken w) \<and>
   storage (snd (initializeApp c oc1 oc2 oc3 w)) = storage w"
proof -
  obtain w1 where w1: "fetchConfiguration c oc1 w = (Inr (configurationOf oc1), w1)"
    "currentUserToken w1 = currentUserToken w" "storage w1 = storage w"
    by (cases "configurationOf oc1") (simp_all add: fetchConfiguration_eq)
  obtain res w2 where w2: "fetchVendors c oc2 w1 = (Inr res, w2)"
    "currentUserToken w2 = currentUserToken w1" "storage w2 = storage w1"
    using fetchVendors_total by blast
  show ?thesis
    using w1 w2
    by (cases "tokenOf oc3")
       (simp_all add: initializeApp_def andThen_def tryCatch_def modify_def ret_def fetchToken_eq)
qed

lemma restartedWorld_eq: "restartedWorld = freshWorld"
  by (simp add: restartedWorld_def freshWorld_def)

lemma consentArrived_storage:
  "storage (snd (consentArrived b tok oc w)) = storage w"
proof (cases oc)
  case (Rejected msg)
  then show ?thesis by (simp add: consentArrived_rejected)
next
  case (Resolved r)
  show ?thesis
  proof (cases "ok r \<or> status r = 201")
    case False
    with Resolved show ?thesis by (simp add: consentArrived_refused)
  next
    case True
    show ?thesis
    proof (cases "parseReply r")
      case Malformed
      then show ?thesis by (simp add: parseReply_not_Malformed)
    next
      case JsonNull
      with True Resolved show ?thesis by (simp add: consentArrived_null)
    next
      case (Json d)
      with True Resolved show ?thesis by (simp add: consentArrived_saved)
    qed
  qed
qed

lemma submitConsent_storage:
  "storage (snd (submitConsent c b oc1 oc2 oc3 w)) = storage w"
proof (cases "resolvedConfigId c oc1")
  case None
  then show ?thesis by (simp add: submit_no_configuration)
next
  case (Some cfg)
  then show ?thesis
    by (cases "resolvedToken c oc2")
       (simp_all add: submit_no_token submit_transmits consentArrived_storage readyToSend_def
          afterToken_def afterResolution_def)
qed

lemma loadSettings_currentUserToken:
  "currentUserToken (snd (loadSettings w)) = currentUserToken w"
  by (simp add: loadSettings_def tryCatch_def andThen_def ret_def modify_def
        split: option.splits)

lemma initializeApp_staged:
  "initializeApp c oc1 oc2 oc3 =
     andThen (fetchConfiguration c oc1) (\<lambda>_.
     andThen (fetchVendors c oc2) (\<lambda>_.
     andThen (issue (tokenRequest c)) (\<lambda>_. startupTokenArrived oc3)))"
proof
  fix w
  obtain w1 where w1: "fetchConfiguration c oc1 w = (Inr (configurationOf oc1), w1)"
    by (cases "configurationOf oc1") (simp_all add: fetchConfiguration_eq)
  obtain res w2 where w2: "fetchVendors c oc2 w1 = (Inr res, w2)"
    using fetchVendors_total by blast
  show "initializeApp c oc1 oc2 oc3 w =
     andThen (fetchConfiguration c oc1) (\<lambda>_.
     andThen (fetchVendors c oc2) (\<lambda>_.
     andThen (issue (tokenRequest c)) (\<lambda>_. startupTokenArrived oc3))) w"
    using w1 w2
    by (cases "tokenOf oc3")
       (simp_all add: initializeApp_def startupTokenArrived_def andThen_def tryCatch_def
          modify_def ret_def issue_def fetchToken_eq tokenArrived_eq)
qed


lemma consentArrived_configId:
  "configId (snd (consentArrived b tok oc w)) = configId w"
proof (cases oc)
  case (Rejected msg)
  then show ?thesis by (simp add: consentArrived_rejected)
next
  case (Resolved r)
  show ?thesis
  proof (cases "ok r \<or> status r = 201")
    case False
    with Resolved show ?thesis by (simp add: consentArrived_refused)
  next
    case True
    show ?thesis
    proof (cases "parseReply r")
      case Malformed
      then show ?thesis by (simp add: parseReply_not_Malformed)
    next
      case JsonNull
      with True Resolved show ?thesis by (simp add: consentArrived_null)
    next
      case (Json d)
      with True Resolved show ?thesis by (simp add: consentArrived_saved)
    qed
  qed
qed

lemma held_token_is_posted:
  assumes "truthy (currentUserToken c)"
  shows "tokenRequest c \<notin> set (newRequests w (snd (submitConsent c b oc1 oc2 oc3 w)))"
    and "\<forall>p \<in> set (sentConsents w (snd (submitConsent c b oc1 oc2 oc3 w))).
           Some (consent_token p) = currentUserToken c"
proof -
  obtain tok where tok: "resolvedToken c oc2 = Inr tok" "currentUserToken c = Some tok"
    using resolvedToken_held [OF assms refl] by blast
  show "tokenRequest c \<notin> set (newRequests w (snd (submitConsent c b oc1 oc2 oc3 w)))"
    using assms tok tokenRequest_neq_configurationRequest [of c]
    by (auto simp: submitConsent_newRequests tokenRequest_def consentRequest_def
          split: option.splits)
  show "\<forall>p \<in> set (sentConsents w (snd (submitConsent c b oc1 oc2 oc3 w))).
           Some (consent_token p) = currentUserToken c"
    using tok
    by (auto simp: submitConsent_sentConsents buildConsent_def split: option.splits)
qed

lemma fetched_token_is_posted_and_kept:
  assumes "\<not> truthy (currentUserToken c)"
    and "transmitted w (snd (submitConsent c b oc1 oc2 oc3 w))"
  shows "tokenRequest c \<in> set (newRequests w (snd (submitConsent c b oc1 oc2 oc3 w)))"
    and "\<forall>p \<in> set (sentConsents w (snd (submitConsent c b oc1 oc2 oc3 w))).
           Inr (consent_token p) = fst (fetchToken c oc2 w) \<and>
           currentUserToken (snd (submitConsent c b oc1 oc2 oc3 w)) = Some (consent_token p)"
proof -
  from assms(2) obtain cfg tok where
    r: "resolvedConfigId c oc1 = Some cfg" "resolvedToken c oc2 = Inr tok"
    by (auto simp: submitConsent_transmitted)
  have tk: "tokenOf oc2 = Inr tok"
    using r(2) assms(1) by (simp add: resolvedToken_fetched)
  show "tokenRequest c \<in> set (newRequests w (snd (submitConsent c b oc1 oc2 oc3 w)))"
    using r assms(1) by (simp add: submitConsent_newRequests)
  show "\<forall>p \<in> set (sentConsents w (snd (submitConsent c b oc1 oc2 oc3 w))).
           Inr (consent_token p) = fst (fetchToken c oc2 w) \<and>
           currentUserToken (snd (submitConsent c b oc1 oc2 oc3 w)) = Some (consent_token p)"
  proof -
    have sent: "sentConsents w (snd (submitConsent c b oc1 oc2 oc3 w)) =
        [buildConsent c b cfg tok]"
      using r by (simp add: submitConsent_sentConsents)
    have kept: "currentUserToken (snd (submitConsent c b oc1 oc2 oc3 w)) = Some tok"
      using r assms(1) by (simp add: submit_transmits consentArrived_currentUserToken)
    show ?thesis
      using tk by (simp add: sent kept buildConsent_def fetchToken_eq)
  qed
qed

lemma pressed_submission_leaves_its_token:
  assumes "transmitted w (snd (submitConsent w b oc1 oc2 oc3 w))"
  shows "truthy (currentUserToken (snd (submitConsent w b oc1 oc2 oc3 w)))"
    and "\<forall>p \<in> set (sentConsents w (snd (submitConsent w b oc1 oc2 oc3 w))).
           Some (consent_token p) = currentUserToken (snd (submitConsent w b oc1 oc2 oc3 w))"
proof -
  from assms obtain cfg tok where
    r: "resolvedConfigId w oc1 = Some cfg" "resolvedToken w oc2 = Inr tok"
    by (auto simp: submitConsent_transmitted)
  have tok: "tok \<noteq> []"
    using r(2) by (rule resolvedToken_truthy)
  have held: "currentUserToken (snd (submitConsent w b oc1 oc2 oc3 w)) = Some tok"
    using r resolvedToken_held [of w oc2 "Inr tok"]
    by (auto simp: submit_transmits consentArrived_currentUserToken)
  show "truthy (currentUserToken (snd (submitConsent w b oc1 oc2 oc3 w)))"
    using held tok by (simp add: truthy_def)
  show "\<forall>p \<in> set (sentConsents w (snd (submitConsent w b oc1 oc2 oc3 w))).
           Some (consent_token p) = currentUserToken (snd (submitConsent w b oc1 oc2 oc3 w))"
    using r held by (simp add: submitConsent_sentConsents buildConsent_def)
qed

text \<open>
  C5, as the code has it. The token is kept in memory only.
  \<^item> A submission reads the token its render holds. If it holds one, the submission asks
    the service for none and posts under the token held.
  \<^item> If it holds none, a submission that gets as far as posting has asked the service,
    posts under the token \<^verbatim>\<open>fetchToken\<close> returned, and has stored that token in
    \<^verbatim>\<open>currentUserToken\<close>.
  \<^item> So of two submissions, the first made by a press in state \<open>w\<close> and the second from
    any render that still holds the token the first one left in \<^verbatim>\<open>currentUserToken\<close>
    (nothing else has written that cell in between), the second asks for no token and
    posts under the token of the first.
  \<^item> \<^verbatim>\<open>fetchToken\<close> asks the service on every call, and what it returns depends on
    the answer alone, not on the render, the token held or the store.
  \<^item> Neither a submission nor the start-up sequence changes the key-value store, and
    loading the settings from the store leaves \<^verbatim>\<open>currentUserToken\<close> as it is.
\<close>

theorem token_held_is_reused:
  "(truthy (currentUserToken c) \<longrightarrow>
      tokenRequest c \<notin> set (newRequests w (snd (submitConsent c b oc1 oc2 oc3 w))) \<and>
      (\<forall>p \<in> set (sentConsents w (snd (submitConsent c b oc1 oc2 oc3 w))).
         Some (consent_token p) = currentUserToken c)) \<and>
   (\<not> truthy (currentUserToken c) \<and> transmitted w (snd (submitConsent c b oc1 oc2 oc3 w)) \<longrightarrow>
      tokenRequest c \<in> set (newRequests w (snd (submitConsent c b oc1 oc2 oc3 w))) \<and>
      (\<forall>p \<in> set (sentConsents w (snd (submitConsent c b oc1 oc2 oc3 w))).
         Inr (consent_token p) = fst (fetchToken c oc2 w) \<and>
         currentUserToken (snd (submitConsent c b oc1 oc2 oc3 w)) = Some (consent_token p))) \<and>
   (w1 = snd (submitConsent w b oc1 oc2 oc3 w) \<and> transmitted w w1 \<and>
    currentUserToken c2 = currentUserToken w1 \<and>
    w2 = snd (submitConsent c2 b' oc1' oc2' oc3' w') \<longrightarrow>
      tokenRequest c2 \<notin> set (newRequests w' w2) \<and>
      (\<forall>p \<in> set (sentConsents w w1). \<forall>q \<in> set (sentConsents w' w2).
         consent_token q = consent_token p)) \<and>
   fetchToken c oc2 w =
     (fst (fetchToken c' oc2 w'), w\<lparr>requests := requests w @ [tokenRequest c]\<rparr>) \<and>
   storage (snd (submitConsent c b oc1 oc2 oc3 w)) = storage w \<and>
   storage (snd (initializeApp c oc1 ocv oc2 w)) = storage w \<and>
   currentUserToken (snd (loadSettings w)) = currentUserToken w"
proof (intro conjI impI)
  assume "truthy (currentUserToken c)"
  then show "tokenRequest c \<notin> set (newRequests w (snd (submitConsent c b oc1 oc2 oc3 w)))"
    and "\<forall>p \<in> set (sentConsents w (snd (submitConsent c b oc1 oc2 oc3 w))).
           Some (consent_token p) = currentUserToken c"
    by (rule held_token_is_posted)+
next
  assume a: "\<not> truthy (currentUserToken c) \<and>
    transmitted w (snd (submitConsent c b oc1 oc2 oc3 w))"
  then show "tokenRequest c \<in> set (newRequests w (snd (submitConsent c b oc1 oc2 oc3 w)))"
    using fetched_token_is_posted_and_kept(1) by blast
  from a show "\<forall>p \<in> set (sentConsents w (snd (submitConsent c b oc1 oc2 oc3 w))).
         Inr (consent_token p) = fst (fetchToken c oc2 w) \<and>
         currentUserToken (snd (submitConsent c b oc1 oc2 oc3 w)) = Some (consent_token p)"
    using fetched_token_is_posted_and_kept(2) by blast
next
  assume a: "w1 = snd (submitConsent w b oc1 oc2 oc3 w) \<and> transmitted w w1 \<and>
    currentUserToken c2 = currentUserToken w1 \<and>
    w2 = snd (submitConsent c2 b' oc1' oc2' oc3' w')"
  then have tr: "transmitted w (snd (submitConsent w b oc1 oc2 oc3 w))"
    by blast
  have held: "truthy (currentUserToken c2)"
    using a pressed_submission_leaves_its_token(1) [OF tr] by simp
  show "tokenRequest c2 \<notin> set (newRequests w' w2)"
    using a held_token_is_posted(1) [OF held] by simp
  show "\<forall>p \<in> set (sentConsents w w1). \<forall>q \<in> set (sentConsents w' w2).
         consent_token q = consent_token p"
  proof (intro ballI)
    fix p q
    assume "p \<in> set (sentConsents w w1)" and "q \<in> set (sentConsents w' w2)"
    then have "Some (consent_token p) = currentUserToken w1"
      and "Some (consent_token q) = currentUserToken w1"
      using a pressed_submission_leaves_its_token(2) [OF tr] held_token_is_posted(2) [OF held]
      by auto
    then show "consent_token q = consent_token p"
      by (metis option.inject)
  qed
next
  show "fetchToken c oc2 w =
     (fst (fetchToken c' oc2 w'), w\<lparr>requests := requests w @ [tokenRequest c]\<rparr>)"
    by (simp add: fetchToken_eq)
next
  show "storage (snd (submitConsent c b oc1 oc2 oc3 w)) = storage w"
    by (rule submitConsent_storage)
next
  show "storage (snd (initializeApp c oc1 ocv oc2 w)) = storage w"
    by (simp add: initializeApp_token)
next
  show "currentUserToken (snd (loadSettings w)) = currentUserToken w"
    by (rule loadSettings_currentUserToken)
qed


lemma firstSubmission_fields:
  "configId firstSubmission = Some ''cfg1''"
  "currentUserToken firstSubmission = Some ''tok1''"
  by (simp_all add: firstSubmission_def submit_transmits consentArrived_configId
        consentArrived_currentUserToken readyToSend_def afterToken_def afterResolution_def
        truthy_def)

theorem token_held_is_reused_witness:
  "\<not> truthy (currentUserToken freshWorld) \<and>
   transmitted freshWorld firstSubmission \<and>
   tokenRequest freshWorld \<in> set (newRequests freshWorld firstSubmission) \<and>
   currentUserToken firstSubmission = Some ''tok1'' \<and>
   tokenRequest firstSubmission \<notin> set (newRequests firstSubmission secondSubmission) \<and>
   map consent_token (sentConsents freshWorld firstSubmission) = [''tok1''] \<and>
   map consent_token (sentConsents firstSubmission secondSubmission) = [''tok1''] \<and>
   truthy (currentUserToken readyWorld) \<and>
   tokenRequest readyWorld \<notin> set (newRequests readyWorld refusedWorld) \<and>
   fst (fetchToken freshWorld (tokenReply ''tok1'') freshWorld) = Inr ''tok1'' \<and>
   storage firstSubmission = storage freshWorld"
proof -
  have tr: "transmitted freshWorld firstSubmission"
    by (simp add: firstSubmission_def submitConsent_transmitted)
  have s1: "sentConsents freshWorld firstSubmission =
      [buildConsent freshWorld False ''cfg1'' ''tok1'']"
    by (simp add: firstSubmission_def submitConsent_sentConsents)
  have s2: "sentConsents firstSubmission secondSubmission =
      [buildConsent firstSubmission True ''cfg1'' ''tok1'']"
    by (simp add: secondSubmission_def submitConsent_sentConsents resolvedConfigId_def
          resolvedToken_def firstSubmission_fields truthy_def)
  have ft: "fst (fetchToken freshWorld (tokenReply ''tok1'') freshWorld) = Inr ''tok1''"
    by (simp add: fetchToken_eq)
  from token_held_is_reused [where c = freshWorld and w = freshWorld and b = False
      and ?oc1.0 = configurationCfg1 and ?oc2.0 = "tokenReply ''tok1''"
      and ?oc3.0 = "replyWithId 201 (Some ''abc'')" and ?w1.0 = firstSubmission
      and ?c2.0 = firstSubmission and w' = firstSubmission and ?w2.0 = secondSubmission
      and b' = True and oc1' = offline and oc2' = "tokenReply ''tok2''"
      and oc3' = "replyWithId 201 None" and c' = readyWorld and ocv = vendorsV1V2]
    token_held_is_reused [where c = readyWorld and w = readyWorld and b = False
      and ?oc1.0 = offline and ?oc2.0 = offline and ?oc3.0 = serverError
      and ?w1.0 = refusedWorld and ?c2.0 = readyWorld and w' = readyWorld
      and ?w2.0 = refusedWorld and b' = False and oc1' = offline and oc2' = offline
      and oc3' = serverError and c' = readyWorld and ocv = vendorsV1V2]
  show ?thesis
    using tr s1 s2 ft
    by (simp add: firstSubmission_fields buildConsent_def truthy_def
          firstSubmission_def [symmetric] secondSubmission_def [symmetric]
          refusedWorld_def [symmetric])
qed

text \<open>
  Why the second submission must still hold the token of the first. The start-up sequence
  fetches a token of its own and stores whatever arrives, whenever it arrives. When its
  answer comes in after a submission has fetched and used \<^verbatim>\<open>tok1\<close>, the cell is
  overwritten and the next submission posts under the start-up token.
\<close>

lemma startup_token_overtakes:
  "map consent_token (sentConsents freshWorld firstSubmission) = [''tok1''] \<and>
   currentUserToken overtakenWorld = Some ''tok2'' \<and>
   tokenRequest overtakenWorld \<notin> set (newRequests overtakenWorld thirdSubmission) \<and>
   map consent_token (sentConsents overtakenWorld thirdSubmission) = [''tok2'']"
proof -
  have s1: "sentConsents freshWorld firstSubmission =
      [buildConsent freshWorld False ''cfg1'' ''tok1'']"
    by (simp add: firstSubmission_def submitConsent_sentConsents)
  have ov: "overtakenWorld = firstSubmission\<lparr>currentUserToken := Some ''tok2''\<rparr>"
    by (simp add: overtakenWorld_def startupTokenArrived_def tryCatch_def andThen_def
          modify_def tokenArrived_eq)
  have f: "configId overtakenWorld = Some ''cfg1''" "currentUserToken overtakenWorld = Some ''tok2''"
    by (simp_all add: ov firstSubmission_fields)
  have r: "resolvedConfigId overtakenWorld offline = Some ''cfg1''"
    "resolvedToken overtakenWorld offline = Inr ''tok2''"
    by (simp_all add: resolvedConfigId_def resolvedToken_def f truthy_def)
  have s3: "sentConsents overtakenWorld thirdSubmission =
      [buildConsent overtakenWorld False ''cfg1'' ''tok2'']"
    by (simp add: thirdSubmission_def submitConsent_sentConsents r)
  have n3: "newRequests overtakenWorld thirdSubmission =
      [consentRequest overtakenWorld ''cfg1'' (buildConsent overtakenWorld False ''cfg1'' ''tok2'')]"
    by (simp add: thirdSubmission_def submitConsent_newRequests r f truthy_def)
  have nt: "tokenRequest overtakenWorld \<notin> set (newRequests overtakenWorld thirdSubmission)"
    by (simp add: n3 tokenRequest_def consentRequest_def)
  show ?thesis
    by (simp add: s1 s3 nt f buildConsent_def)
qed

text \<open>
  C5 as stated fails: no token is ever written to the key-value store, and
  \<^verbatim>\<open>fetchToken\<close> looks neither at the store nor at the token in memory. With
  \<^verbatim>\<open>tok1\<close> held, a call of \<^verbatim>\<open>fetchToken\<close> returns whatever the service issues
  next; and a restart over the store the session left behind fetches a new token.
\<close>

theorem token_is_not_persisted:
  "currentUserToken readyWorld = Some ''tok1'' \<and>
   storage readyWorld = [] \<and>
   fst (fetchToken readyWorld (tokenReply ''tok2'') readyWorld) = Inr ''tok2'' \<and>
   currentUserToken (snd (loadSettings restartedWorld)) = None \<and>
   currentUserToken
     (snd (initializeApp restartedWorld configurationCfg1 vendorsV1V2 (tokenReply ''tok2'')
             restartedWorld)) = Some ''tok2''"
  by (simp add: fetchToken_eq initializeApp_token restartedWorld_eq loadSettings_def
        tryCatch_def andThen_def ret_def objGet_def)

section \<open>Submissions that overlap\<close>

lemma startSubmit_suspends:
  "\<exists>st w'. startSubmit c b w = (Inr (Some st), w') \<and> loading w' \<and>
     length (requests w') = Suc (length (requests w))"
proof (cases "configId c")
  case None
  then show ?thesis
    by (simp add: startSubmit_def andThen_def modify_def issue_def ret_def truthy_def)
next
  case cfg: (Some cfg)
  show ?thesis
  proof (cases "cfg = []")
    case True
    with cfg show ?thesis
      by (simp add: startSubmit_def andThen_def modify_def issue_def ret_def truthy_def)
  next
    case False
    show ?thesis
    proof (cases "currentUserToken c")
      case None
      with cfg False show ?thesis
        by (simp add: startSubmit_def configuredStage_def tokenStage_def andThen_def modify_def
              issue_def ret_def truthy_def)
    next
      case (Some tok)
      with cfg False show ?thesis
        by (cases "tok = []")
           (simp_all add: startSubmit_def configuredStage_def tokenStage_def sendStage_def
              transmitConsent_def andThen_def modify_def issue_def ret_def truthy_def)
    qed
  qed
qed

lemma resumeSubmit_steps:
  "\<exists>st' w'. resumeSubmit c b st rp w = (Inr st', w') \<and>
     (st' \<noteq> None \<longrightarrow> loading w' = loading w) \<and> (st' = None \<longrightarrow> \<not> loading w')"
proof (cases st)
  case AwaitingConfiguration
  show ?thesis
  proof (cases rp)
    case (ConfigurationReply oc)
    with AwaitingConfiguration show ?thesis
      by (cases "configurationOf oc")
         (auto simp: resumeSubmit_def configurationArrived_eq configuredStage_def tokenStage_def
            sendStage_def transmitConsent_def andThen_def modify_def issue_def ret_def
            showAlert_def truthy_def split: option.splits)
  qed (simp_all add: AwaitingConfiguration resumeSubmit_def ret_def)
next
  case (AwaitingToken cfg)
  show ?thesis
  proof (cases rp)
    case (TokenReply oc)
    with AwaitingToken show ?thesis
      by (cases "tokenOf oc")
         (auto simp: resumeSubmit_def tokenArrived_eq sendStage_def tryCatch_def
            transmitConsent_def andThen_def modify_def issue_def ret_def showAlert_def)
  qed (simp_all add: AwaitingToken resumeSubmit_def ret_def)
next
  case (AwaitingConsent tok)
  show ?thesis
  proof (cases rp)
    case (ConsentReply oc)
    obtain a :: alert and w' where "consentArrived b tok oc w = (Inr (), w')" "\<not> loading w'"
      using consentArrived_total by blast
    with AwaitingConsent ConsentReply show ?thesis
      by (simp add: resumeSubmit_def andThen_def ret_def)
  qed (simp_all add: AwaitingConsent resumeSubmit_def ret_def)
qed

lemma inFlight_loading: "inFlight c b st w \<Longrightarrow> loading w"
proof (induction rule: inFlight.induct)
  case (started c b w st w')
  then show ?case
    using startSubmit_suspends [of c b w] by auto
next
  case (resumed c b st w rp st' w')
  then show ?case
    using resumeSubmit_steps [of c b st rp w] by auto
next
  case (interleaved c b st w w')
  then show ?case by simp
qed

text \<open>
  C2, as the code has it. \<^verbatim>\<open>submitConsent\<close> keeps no "submitting" mark per token and
  refuses no call: every call runs on to its first request. What keeps submissions apart
  is the screen: a call switches \<^verbatim>\<open>loading\<close> on before its first \<^verbatim>\<open>await\<close> and
  off only when it returns, and while \<^verbatim>\<open>loading\<close> is on the button that calls
  \<^verbatim>\<open>submitConsent\<close> is disabled. So while a call is in flight a press on
  \<^verbatim>\<open>Save My Choices\<close> starts nothing, and at most one submission is in flight through
  the screen, whatever the token.
\<close>

theorem one_submission_through_the_button:
  "(\<exists>st w'. startSubmit c b w = (Inr (Some st), w') \<and> loading w' \<and>
      length (requests w') = Suc (length (requests w))) \<and>
   (inFlight c b st w \<longrightarrow> loading w \<and> pressSaveMyChoices w = None) \<and>
   (inFlight c b st w \<and> resumeSubmit c b st rp w = (Inr None, w') \<longrightarrow> \<not> loading w')"
proof (intro conjI impI)
  show "\<exists>st w'. startSubmit c b w = (Inr (Some st), w') \<and> loading w' \<and>
      length (requests w') = Suc (length (requests w))"
    by (rule startSubmit_suspends)
next
  assume "inFlight c b st w"
  then have "loading w" by (rule inFlight_loading)
  then show "loading w" "pressSaveMyChoices w = None"
    by (simp_all add: pressSaveMyChoices_def saveMyChoicesDisabled_def)
next
  assume "inFlight c b st w \<and> resumeSubmit c b st rp w = (Inr None, w')"
  then show "\<not> loading w'"
    using resumeSubmit_steps [of c b st rp w] by auto
qed

lemma firstInFlight_eq:
  "startSubmit readyWorld False readyWorld =
     (Inr (Some (AwaitingConsent ''tok1'')), firstInFlight)"
  by (simp add: firstInFlight_def startSubmit_def configuredStage_def tokenStage_def
        sendStage_def andThen_def modify_def ret_def transmitConsent_def issue_def truthy_def)

theorem one_submission_through_the_button_witness:
  "\<not> saveMyChoicesDisabled readyWorld \<and>
   pressSaveMyChoices readyWorld = Some (Inr (Some (AwaitingConsent ''tok1'')), firstInFlight) \<and>
   inFlight readyWorld False (AwaitingConsent ''tok1'') firstInFlight \<and>
   loading firstInFlight \<and>
   pressSaveMyChoices firstInFlight = None"
proof -
  have fl: "inFlight readyWorld False (AwaitingConsent ''tok1'') firstInFlight"
    using firstInFlight_eq by (rule inFlight.started)
  have en: "\<not> saveMyChoicesDisabled readyWorld"
    by (simp add: saveMyChoicesDisabled_def)
  from one_submission_through_the_button [of readyWorld False firstInFlight
      "AwaitingConsent ''tok1''" "ConsentReply offline" firstInFlight]
  show ?thesis
    using fl en by (simp add: pressSaveMyChoices_def firstInFlight_eq)
qed

text \<open>
  C2 as stated fails for calls of \<^verbatim>\<open>submitConsent\<close> itself: called a second time
  while the first call waits for its answer, it posts a second consent under the same
  token, and both calls end in the success dialog. No call is refused.
\<close>

theorem overlapping_calls_both_post:
  "startSubmit readyWorld False readyWorld =
     (Inr (Some (AwaitingConsent ''tok1'')), firstInFlight) \<and>
   startSubmit readyWorld False firstInFlight =
     (Inr (Some (AwaitingConsent ''tok1'')), bothInFlight) \<and>
   map consent_token (sentConsents readyWorld bothInFlight) = [''tok1'', ''tok1''] \<and>
   alerts bothAnswered =
     [SuccessAlert 201 (Some ''abc'') ''tok1'', SuccessAlert 201 (Some ''def'') ''tok1'']"
proof -
  have second: "startSubmit readyWorld False firstInFlight =
      (Inr (Some (AwaitingConsent ''tok1'')), bothInFlight)"
    by (simp add: bothInFlight_def startSubmit_def configuredStage_def tokenStage_def
          sendStage_def andThen_def modify_def ret_def transmitConsent_def issue_def truthy_def)
  have reqs: "requests bothInFlight = requests readyWorld @
      [consentRequest readyWorld ''cfg1'' (buildConsent readyWorld False ''cfg1'' ''tok1''),
       consentRequest readyWorld ''cfg1'' (buildConsent readyWorld False ''cfg1'' ''tok1'')]"
    by (simp add: bothInFlight_def firstInFlight_def startSubmit_def configuredStage_def
          tokenStage_def sendStage_def andThen_def modify_def ret_def transmitConsent_def
          issue_def truthy_def)
  have sent: "map consent_token (sentConsents readyWorld bothInFlight) = [''tok1'', ''tok1'']"
    by (simp add: sentConsents_def newRequests_append [OF reqs] buildConsent_def)
  have al: "alerts bothInFlight = []"
    by (simp add: bothInFlight_def firstInFlight_def startSubmit_def configuredStage_def
          tokenStage_def sendStage_def andThen_def modify_def ret_def transmitConsent_def
          issue_def truthy_def)
  have answered: "alerts bothAnswered =
     [SuccessAlert 201 (Some ''abc'') ''tok1'', SuccessAlert 201 (Some ''def'') ''tok1'']"
    by (simp add: bothAnswered_def resumeSubmit_def andThen_def ret_def replyWithId_def
          consentArrived_saved serverAssignedId_def orElse_def orDefault_def truthy_def al)
  from firstInFlight_eq second sent answered show ?thesis by simp
qed

end
